theory Spec2Isabelle
  imports Main "HOL-Library.AList" "HOL-Library.Word"
begin

section \<open>The cloudwatch metricset of metricbeat's aws module\<close>

text \<open>
  A shallow embedding of \<^verbatim>\<open>x-pack/metricbeat/module/aws/cloudwatch/cloudwatch.go\<close>.

  Go strings are byte sequences: \<open>string\<close> (a \<open>char list\<close>, one \<open>char\<close> per byte).
  A Go slice is nil or a sequence of elements. The fields that the code compares with
  \<^verbatim>\<open>nil\<close> are modelled as \<open>'a list option\<close> (\<open>None\<close> is the nil slice, \<open>Some []\<close>
  an empty slice that is not nil); the slices that the code only ranges over, indexes or
  takes the length of are plain lists, for which nil and empty cannot be told apart.
  The \<^verbatim>\<open>*string\<close> fields of the AWS SDK types are modelled as strings: the code
  dereferences them without a check, and the SDK and \<^verbatim>\<open>readCloudwatchConfig\<close> always
  set them.
  A Go map is an association list with distinct keys, ranged over in list order (Go leaves
  the order unspecified).
  Log lines have no effect on what the functions return or report and are left out. The
  clients that \<^verbatim>\<open>createAwsRequiredClients\<close> builds for a region (it never returns an error)
  are represented by the name of the region.
\<close>

subsection \<open>Package-level variables\<close>

definition namespaceIdx :: nat where "namespaceIdx = 1"
definition metricNameIdx :: nat where "metricNameIdx = 0"
definition statisticIdx :: nat where "statisticIdx = 2"
definition identifierNameIdx :: nat where "identifierNameIdx = 3"
definition identifierValueIdx :: nat where "identifierValueIdx = 4"

definition defaultStatistics :: "string list" where
  "defaultStatistics = [''Average'', ''Maximum'', ''Minimum'', ''Sum'', ''SampleCount'']"

definition labelSeparator :: string where "labelSeparator = ''|''"
definition dimensionSeparator :: string where "dimensionSeparator = '',''"
definition dimensionValueWildcard :: string where "dimensionValueWildcard = ''*''"

subsection \<open>The functions of Go's \<^verbatim>\<open>strings\<close> and \<^verbatim>\<open>strconv\<close> that the code calls\<close>

text \<open>\<^verbatim>\<open>strings.HasPrefix(s, prefix)\<close>.\<close>

definition HasPrefix :: "string \<Rightarrow> string \<Rightarrow> bool" where
  "HasPrefix s p = (take (length p) s = p)"

text \<open>
  \<^verbatim>\<open>strings.Split(s, sep)\<close>: the substrings of \<open>s\<close> between the occurrences of
  \<open>sep\<close>, found from the left; one more field than there are occurrences, so the empty
  string gives one empty field. With an empty separator Go cuts after each UTF-8
  sequence, here after each byte; the code only ever splits on one-byte separators.
\<close>

fun Split :: "string \<Rightarrow> string \<Rightarrow> string list" where
  "Split [] sep = [[]]"
| "Split (c # cs) sep =
     (if sep = [] then (if cs = [] then [[c]] else [c] # Split cs sep)
      else if take (length sep) (c # cs) = sep
      then [] # Split (drop (length sep) (c # cs)) sep
      else (case Split cs sep of r # rs \<Rightarrow> (c # r) # rs | [] \<Rightarrow> [[c]]))"

text \<open>\<^verbatim>\<open>strings.Join(elems, sep)\<close>.\<close>

fun Join :: "string list \<Rightarrow> string \<Rightarrow> string" where
  "Join [] sep = []"
| "Join [x] sep = x"
| "Join (x # y # ys) sep = x @ sep @ Join (y # ys) sep"

text \<open>
  \<^verbatim>\<open>strings.ToLower\<close> on ASCII letters. (On bytes outside ASCII Go lower-cases the
  Unicode letters they encode; CloudWatch namespaces are ASCII.)
\<close>

definition lower_byte :: "char \<Rightarrow> char" where
  "lower_byte c =
     (let n = (of_char c :: nat) in if 65 \<le> n \<and> n \<le> 90 then char_of (n + 32) else c)"

definition ToLower :: "string \<Rightarrow> string" where
  "ToLower s = map lower_byte s"

text \<open>\<^verbatim>\<open>strconv.Itoa\<close> on the non-negative integers (the loop indices of the code).\<close>

definition digit_char :: "nat \<Rightarrow> char" where
  "digit_char d = char_of (48 + d)"

fun Itoa :: "nat \<Rightarrow> string" where
  "Itoa n = (if n < 10 then [digit_char n] else Itoa (n div 10) @ [digit_char (n mod 10)])"

declare Itoa.simps [simp del]

subsection \<open>Statistic names\<close>

definition statisticLookupTable :: "(string \<times> string) list" where
  "statisticLookupTable =
     [(''Average'', ''avg''), (''Sum'', ''sum''), (''Maximum'', ''max''),
      (''Minimum'', ''min''), (''SampleCount'', ''count'')]"

definition StatisticLookup :: "string \<Rightarrow> string \<times> bool" where
  "StatisticLookup stat =
     (case map_of statisticLookupTable stat of
        Some statMethod \<Rightarrow> (statMethod, True)
      | None \<Rightarrow> (stat, HasPrefix stat ''p''))"

subsection \<open>Data model\<close>

text \<open>\<^verbatim>\<open>aws.Tag\<close> and the tagging API's \<^verbatim>\<open>Tag\<close>: a key and a value.\<close>

record Tag =
  Key :: string
  Value :: string

text \<open>The configured \<^verbatim>\<open>Dimension\<close> and the SDK's \<^verbatim>\<open>types.Dimension\<close>.\<close>

record Dimension =
  Name :: string
  Value :: string

text \<open>\<^verbatim>\<open>types.Metric\<close>.\<close>

record Metric =
  Namespace :: string
  MetricName :: string
  Dimensions :: "Dimension list"

record Config =
  Namespace :: string
  MetricName :: "string list option"
  Dimensions :: "Dimension list option"
  ResourceType :: string
  Statistic :: "string list option"

record MetricsWithStatistics =
  CloudwatchMetric :: Metric
  Statistic :: "string list"

record ListMetricWithDetail =
  MetricsWithStats :: "MetricsWithStatistics list"
  ResourceTypeFilters :: "(string \<times> Tag list) list"

record NamespaceDetail =
  ResourceTypeFilter :: string
  Names :: "string list option"
  Tags :: "Tag list"
  Statistics :: "string list"
  Dimensions :: "Dimension list option"

text \<open>\<^verbatim>\<open>types.MetricStat\<close> and \<^verbatim>\<open>types.MetricDataQuery\<close>, with the fields the code sets
  (the period is an \<^verbatim>\<open>int32\<close>).\<close>

record MetricStat =
  Period :: "32 word"
  Stat :: string
  Metric :: Metric

record MetricDataQuery =
  Id :: string
  MetricStat :: MetricStat
  Label :: string

subsection \<open>Labels and queries\<close>

text \<open>
  The loop of \<^verbatim>\<open>ConstructLabel\<close> over the dimensions, with the two strings it builds.
  The test \<^verbatim>\<open>i != len(metric.Dimensions)-1\<close> holds exactly when dimensions remain.
\<close>

fun ConstructLabel_loop :: "Dimension list \<Rightarrow> string \<times> string \<Rightarrow> string \<times> string" where
  "ConstructLabel_loop [] acc = acc"
| "ConstructLabel_loop (dim # rest) (dimNames, dimValues) =
     (let dimNames = dimNames @ Name dim;
          dimValues = dimValues @ Dimension.Value dim
      in if rest \<noteq> []
         then ConstructLabel_loop rest
                (dimNames @ dimensionSeparator, dimValues @ dimensionSeparator)
         else ConstructLabel_loop rest (dimNames, dimValues))"

definition ConstructLabel :: "Metric \<Rightarrow> string \<Rightarrow> string" where
  "ConstructLabel metric statistic =
     (let label = Metric.MetricName metric @ labelSeparator @ Metric.Namespace metric
                    @ labelSeparator @ statistic;
          (dimNames, dimValues) = ConstructLabel_loop (Metric.Dimensions metric) ([], [])
      in if dimNames \<noteq> [] \<and> dimValues \<noteq> []
         then (label @ labelSeparator @ dimNames) @ labelSeparator @ dimValues
         else label)"

text \<open>The identifier of the query for statistic \<open>j\<close> of metric \<open>i\<close>.\<close>

definition query_id :: "nat \<Rightarrow> nat \<Rightarrow> string" where
  "query_id i j = ''cw'' @ Itoa i @ ''stats'' @ Itoa j"

text \<open>
  \<^verbatim>\<open>CreateMetricDataQueries\<close>: the inner loop over the statistics of metric \<open>i\<close>, from
  index \<open>j\<close> on, and the outer loop over the metrics from index \<open>i\<close> on. The period in
  seconds, \<^verbatim>\<open>int32(period.Seconds())\<close>, is computed in floating point from the module's
  period and is a parameter here.
\<close>

fun queries_of_metric ::
  "32 word \<Rightarrow> nat \<Rightarrow> MetricsWithStatistics \<Rightarrow> nat \<Rightarrow> string list \<Rightarrow> MetricDataQuery list" where
  "queries_of_metric periodInSec i listMetric j [] = []"
| "queries_of_metric periodInSec i listMetric j (statistic # rest) =
     \<lparr>Id = query_id i j,
      MetricStat = \<lparr>Period = periodInSec, Stat = statistic,
                    Metric = CloudwatchMetric listMetric\<rparr>,
      Label = ConstructLabel (CloudwatchMetric listMetric) statistic\<rparr>
     # queries_of_metric periodInSec i listMetric (Suc j) rest"

fun queries_from ::
  "32 word \<Rightarrow> nat \<Rightarrow> MetricsWithStatistics list \<Rightarrow> MetricDataQuery list" where
  "queries_from periodInSec i [] = []"
| "queries_from periodInSec i (listMetric # rest) =
     queries_of_metric periodInSec i listMetric 0 (MetricsWithStatistics.Statistic listMetric)
     @ queries_from periodInSec (Suc i) rest"

definition CreateMetricDataQueries ::
  "MetricsWithStatistics list \<Rightarrow> 32 word \<Rightarrow> MetricDataQuery list" where
  "CreateMetricDataQueries listMetricsTotal periodInSec =
     queries_from periodInSec 0 listMetricsTotal"

subsection \<open>Comparing dimensions\<close>

text \<open>A \<^verbatim>\<open>map[string]string\<close>.\<close>

type_synonym strmap = "(string \<times> string) list"

text \<open>
  The first loop of \<^verbatim>\<open>CompareAWSDimensions\<close> fills both maps, entry \<open>i\<close> of either list
  at step \<open>i\<close>. The lists have the same length when it runs, so it walks them together.
\<close>

fun fill_name_to_value ::
  "Dimension list \<Rightarrow> Dimension list \<Rightarrow> strmap \<times> strmap \<Rightarrow> strmap \<times> strmap" where
  "fill_name_to_value (d1 # r1) (d2 # r2) (dim1NameToValue, dim2NameToValue) =
     fill_name_to_value r1 r2
       (AList.update (Name d1) (Dimension.Value d1) dim1NameToValue,
        AList.update (Name d2) (Dimension.Value d2) dim2NameToValue)"
| "fill_name_to_value _ _ maps = maps"

text \<open>
  The second loop ranges over the entries of \<^verbatim>\<open>dim1NameToValue\<close> and overwrites the
  wildcard values of \<^verbatim>\<open>dim2NameToValue\<close>.
\<close>

fun resolve_wildcards :: "strmap \<Rightarrow> strmap \<Rightarrow> strmap" where
  "resolve_wildcards [] dim2NameToValue = dim2NameToValue"
| "resolve_wildcards ((name, v1) # rest) dim2NameToValue =
     (case map_of dim2NameToValue name of
        Some v2 \<Rightarrow>
          if v2 = dimensionValueWildcard
          then resolve_wildcards rest (AList.update name v1 dim2NameToValue)
          else resolve_wildcards rest dim2NameToValue
      | None \<Rightarrow> resolve_wildcards rest dim2NameToValue)"

text \<open>
  \<^verbatim>\<open>reflect.DeepEqual\<close> on two maps that are not nil: the same number of keys, and every
  key of the first bound to the same value in the second.
\<close>

definition DeepEqual :: "strmap \<Rightarrow> strmap \<Rightarrow> bool" where
  "DeepEqual m1 m2 =
     (length m1 = length m2 \<and> list_all (\<lambda>(k, v1). map_of m2 k = Some v1) m1)"

definition CompareAWSDimensions :: "Dimension list \<Rightarrow> Dimension list \<Rightarrow> bool" where
  "CompareAWSDimensions dim1 dim2 =
     (if length dim1 \<noteq> length dim2 then False
      else
        let (dim1NameToValue, dim2NameToValue) = fill_name_to_value dim1 dim2 ([], []);
            dim2NameToValue = resolve_wildcards dim1NameToValue dim2NameToValue
        in DeepEqual dim1NameToValue dim2NameToValue)"

subsection \<open>Reading the configuration\<close>

text \<open>The elements of a slice that may be nil, and \<^verbatim>\<open>append\<close> of one element to it.\<close>

definition elems :: "'a list option \<Rightarrow> 'a list" where
  "elems s = (case s of None \<Rightarrow> [] | Some xs \<Rightarrow> xs)"

definition append_slice :: "'a list option \<Rightarrow> 'a \<Rightarrow> 'a list option" where
  "append_slice s x = Some (elems s @ [x])"

fun ConfigDimensionValueContainsWildcard :: "Dimension list \<Rightarrow> bool" where
  "ConfigDimensionValueContainsWildcard [] = False"
| "ConfigDimensionValueContainsWildcard (d # rest) =
     (if Dimension.Value d = dimensionValueWildcard then True
      else ConfigDimensionValueContainsWildcard rest)"

text \<open>
  The state of the loop of \<^verbatim>\<open>readCloudwatchConfig\<close>: \<^verbatim>\<open>metricsWithStatsTotal\<close>,
  \<^verbatim>\<open>resourceTypesWithTags\<close> and \<^verbatim>\<open>namespaceDetailTotal\<close>.
\<close>

type_synonym config_state =
  "MetricsWithStatistics list \<times> (string \<times> Tag list) list \<times> (string \<times> NamespaceDetail list) list"

text \<open>
  One round of the loop, for one entry of the configuration; \<open>tagsFilter\<close> is
  \<^verbatim>\<open>m.MetricSet.TagsFilter\<close>. A namespace that has no list yet reads as the nil slice.
\<close>

definition readCloudwatchConfig_entry :: "Tag list \<Rightarrow> Config \<Rightarrow> config_state \<Rightarrow> config_state" where
  "readCloudwatchConfig_entry tagsFilter entry state =
     (case state of (metricsWithStatsTotal, resourceTypesWithTags, namespaceDetailTotal) \<Rightarrow>
      let config = (if Config.Statistic entry = None
                    then entry\<lparr>Config.Statistic := Some defaultStatistics\<rparr> else entry);
          cloudwatchDimensions =
            fold (\<lambda>dim acc. append_slice acc \<lparr>Name = Name dim, Value = Dimension.Value dim\<rparr>)
              (elems (Config.Dimensions config)) None
      in if Config.MetricName config \<noteq> None \<and> Config.Dimensions config \<noteq> None
            \<and> \<not> ConfigDimensionValueContainsWildcard (elems (Config.Dimensions config))
         then
           (fold (\<lambda>name acc. acc @
                    [\<lparr>CloudwatchMetric =
                        \<lparr>Metric.Namespace = Config.Namespace config,
                         Metric.MetricName = name,
                         Metric.Dimensions = elems cloudwatchDimensions\<rparr>,
                      MetricsWithStatistics.Statistic = elems (Config.Statistic config)\<rparr>])
              (elems (Config.MetricName config)) metricsWithStatsTotal,
            if ResourceType config \<noteq> []
            then AList.update (ResourceType config) tagsFilter resourceTypesWithTags
            else resourceTypesWithTags,
            namespaceDetailTotal)
         else
           (metricsWithStatsTotal, resourceTypesWithTags,
            AList.update (Config.Namespace config)
              (elems (map_of namespaceDetailTotal (Config.Namespace config)) @
                 [\<lparr>ResourceTypeFilter = ResourceType config,
                   Names = Config.MetricName config,
                   Tags = tagsFilter,
                   Statistics = elems (Config.Statistic config),
                   NamespaceDetail.Dimensions = cloudwatchDimensions\<rparr>])
              namespaceDetailTotal))"

definition readCloudwatchConfig ::
  "Config list \<Rightarrow> Tag list \<Rightarrow> ListMetricWithDetail \<times> (string \<times> NamespaceDetail list) list" where
  "readCloudwatchConfig cloudwatchConfigs tagsFilter =
     (case fold (readCloudwatchConfig_entry tagsFilter) cloudwatchConfigs ([], [], []) of
        (metricsWithStatsTotal, resourceTypesWithTags, namespaceDetailTotal) \<Rightarrow>
          (\<lparr>MetricsWithStats = metricsWithStatsTotal,
            ResourceTypeFilters = resourceTypesWithTags\<rparr>,
           namespaceDetailTotal))"



subsection \<open>Filtering the listed metrics\<close>






subsection \<open>Events\<close>

text \<open>
  What stops a call: a run-time panic of Go (an index out of range, an assignment to an
  entry of a nil map) or an error that the code returns.
\<close>

datatype error =
    IndexOutOfRange
  | NilMap
  | InvalidStatistic string
  | UnpackConfigError string
  | GetMetricDataError string
  | CreateEventsError string error

text \<open>Indexing a slice; Go panics out of range. The second takes a Go \<^verbatim>\<open>int\<close>.\<close>

definition index :: "'a list \<Rightarrow> nat \<Rightarrow> error + 'a" where
  "index xs i = (if i < length xs then Inr (xs ! i) else Inl IndexOutOfRange)"


text \<open>
  The value of a field of an event: a metric value (a \<^verbatim>\<open>float64\<close>, which the code only
  passes on; the type \<open>'f\<close>) or a string.
\<close>

datatype 'f field_value = Number 'f | Text string

text \<open>
  \<^verbatim>\<open>mb.Event\<close>, with the fields the code reads or writes. Times are instants, the zero
  \<^verbatim>\<open>time.Time\<close> is \<open>0\<close>.
\<close>

record 'f Event =
  Timestamp :: int
  RootFields :: "(string \<times> 'f field_value) list"

type_synonym 'f events = "(string \<times> 'f Event) list"

text \<open>
  Modelled from the spec: the \<^verbatim>\<open>Put\<close> of the event's field map is not in the file. The
  fields are a mapping from the whole path to the value, and the last write to a path
  wins.
\<close>

definition Put :: "string \<Rightarrow> 'v \<Rightarrow> (string \<times> 'v) list \<Rightarrow> (string \<times> 'v) list" where
  "Put key v fieldMap = AList.update key v fieldMap"

definition put_field :: "string \<Rightarrow> 'f field_value \<Rightarrow> 'f Event \<Rightarrow> 'f Event" where
  "put_field key v event = event\<lparr>RootFields := Put key v (RootFields event)\<rparr>"

text \<open>
  Modelled from the spec: \<^verbatim>\<open>common.DeDot\<close> is not in the file; it replaces every dot by an
  underscore.
\<close>

definition DeDot :: "string \<Rightarrow> string" where
  "DeDot s = map (\<lambda>c. if c = CHR ''.'' then CHR ''_'' else c) s"

text \<open>\<^verbatim>\<open>StripNamespace\<close>: \<^verbatim>\<open>strings.Split\<close> gives at least one part, so the last part exists.\<close>

definition StripNamespace :: "string \<Rightarrow> string" where
  "StripNamespace namespace = (let parts = Split namespace ''/'' in ToLower (last parts))"

definition GenerateFieldName :: "string \<Rightarrow> string list \<Rightarrow> error + string" where
  "GenerateFieldName namespace labels =
     (case index labels statisticIdx of
        Inl e \<Rightarrow> Inl e
      | Inr stat \<Rightarrow>
          let statMethod = fst (StatisticLookup stat) in
          (case index labels metricNameIdx of
             Inl e \<Rightarrow> Inl e
           | Inr metricName \<Rightarrow>
               Inr (''aws.'' @ StripNamespace namespace @ ''.metrics.'' @ DeDot metricName
                    @ ''.'' @ statMethod)))"

text \<open>The loop of \<^verbatim>\<open>InsertRootFields\<close> over the dimension names, from index \<open>i\<close> on.\<close>

function InsertRootFields_loop ::
  "string list \<Rightarrow> string list \<Rightarrow> nat \<Rightarrow> 'f Event \<Rightarrow> error + 'f Event" where
  "InsertRootFields_loop dimNames dimValues i event =
     (if i < length dimNames
      then (case index dimValues i of
              Inl e \<Rightarrow> Inl e
            | Inr dimValue \<Rightarrow>
                InsertRootFields_loop dimNames dimValues (Suc i)
                  (put_field (''aws.dimensions.'' @ dimNames ! i) (Text dimValue) event))
      else Inr event)"
  by pat_completeness auto
termination
  by (relation "measure (\<lambda>(dimNames, dimValues, i, event). length dimNames - i)") auto

declare InsertRootFields_loop.simps [simp del]

definition InsertRootFields :: "'f Event \<Rightarrow> 'f \<Rightarrow> string list \<Rightarrow> error + 'f Event" where
  "InsertRootFields event metricValue labels =
     (case index labels namespaceIdx of
        Inl e \<Rightarrow> Inl e
      | Inr namespace \<Rightarrow>
          (case GenerateFieldName namespace labels of
             Inl e \<Rightarrow> Inl e
           | Inr fieldName \<Rightarrow>
               let event = put_field fieldName (Number metricValue) event;
                   event = put_field ''aws.cloudwatch.namespace'' (Text namespace) event
               in if length labels = 3 then Inr event
                  else
                    (case index labels identifierNameIdx of
                       Inl e \<Rightarrow> Inl e
                     | Inr names \<Rightarrow>
                         (case index labels identifierValueIdx of
                            Inl e \<Rightarrow> Inl e
                          | Inr vals \<Rightarrow>
                              InsertRootFields_loop (Split names dimensionSeparator)
                                (Split vals dimensionSeparator) 0 event))))"

subsection \<open>Tags\<close>

text \<open>
  The map from a resource identifier to the tags of the resource; a resource may be bound
  to the nil slice, and an identifier that is not a key reads as the nil slice.
\<close>

type_synonym tagmap = "(string \<times> Tag list option) list"

definition tags_of :: "tagmap \<Rightarrow> string \<Rightarrow> Tag list option" where
  "tags_of resourceTagMap identifier =
     (case map_of resourceTagMap identifier of None \<Rightarrow> None | Some tags \<Rightarrow> tags)"

text \<open>
  The inner loop of \<^verbatim>\<open>InsertTags\<close>: one \<^verbatim>\<open>Put\<close> per tag on the fields of
  \<^verbatim>\<open>events[identifier]\<close>. For an identifier that is no key of \<open>events\<close> the Go map gives
  the zero event, whose field map is nil, and the \<^verbatim>\<open>Put\<close> panics.
\<close>

fun InsertTags_tags :: "Tag list \<Rightarrow> string \<Rightarrow> 'f events \<Rightarrow> error + 'f events" where
  "InsertTags_tags [] identifier events = Inr events"
| "InsertTags_tags (tag # rest) identifier events =
     (case map_of events identifier of
        None \<Rightarrow> Inl NilMap
      | Some event \<Rightarrow>
          InsertTags_tags rest identifier
            (AList.update identifier
               (put_field (''aws.tags.'' @ DeDot (Key tag)) (Text (Tag.Value tag)) event)
               events))"

text \<open>
  The outer loop over the sub-identifiers. \<open>findShortIdentifierFromARN\<close> is
  \<^verbatim>\<open>aws.FindShortIdentifierFromARN\<close>, which is not in the file: \<open>None\<close> when it returns an
  error.
\<close>

fun InsertTags_subs ::
  "(string \<Rightarrow> string option) \<Rightarrow> string list \<Rightarrow> string \<Rightarrow> tagmap \<Rightarrow> 'f events
   \<Rightarrow> error + 'f events" where
  "InsertTags_subs findShortIdentifierFromARN [] identifier resourceTagMap events = Inr events"
| "InsertTags_subs findShortIdentifierFromARN (v # rest) identifier resourceTagMap events =
     (let tags = tags_of resourceTagMap v;
          tags = (if length (elems tags) = 0 \<and> HasPrefix v ''arn:''
                  then (case findShortIdentifierFromARN v of
                          Some resourceID \<Rightarrow> tags_of resourceTagMap resourceID
                        | None \<Rightarrow> tags)
                  else tags)
      in if length (elems tags) \<noteq> 0
         then (case InsertTags_tags (elems tags) identifier events of
                 Inl e \<Rightarrow> Inl e
               | Inr events \<Rightarrow>
                   InsertTags_subs findShortIdentifierFromARN rest identifier resourceTagMap
                     events)
         else InsertTags_subs findShortIdentifierFromARN rest identifier resourceTagMap events)"

definition InsertTags ::
  "(string \<Rightarrow> string option) \<Rightarrow> 'f events \<Rightarrow> string \<Rightarrow> tagmap \<Rightarrow> error + 'f events" where
  "InsertTags findShortIdentifierFromARN events identifier resourceTagMap =
     InsertTags_subs findShortIdentifierFromARN (Split identifier dimensionSeparator)
       identifier resourceTagMap events"

subsection \<open>Creating the events of one region\<close>

text \<open>\<^verbatim>\<open>types.MetricDataResult\<close>, with the fields the code reads.\<close>

record 'f MetricDataResult =
  Label :: string
  Timestamps :: "int list"
  Values :: "'f list"












subsection \<open>Fetching\<close>







section \<open>Notions of the statements\<close>

text \<open>The decimal digits, for the proofs about \<^verbatim>\<open>strconv.Itoa\<close>.\<close>

definition is_digit :: "char \<Rightarrow> bool" where
  "is_digit c = (48 \<le> (of_char c :: nat) \<and> (of_char c :: nat) < 58)"

text \<open>
  The comparison in the words of the specification: the mapping from names to values that
  a dimension list stands for (a later entry overrides an earlier one of the same name), and
  the second list with each wildcard value replaced by the value that the first list gives
  to the same name.
\<close>

definition name_to_value :: "Dimension list \<Rightarrow> string \<rightharpoonup> string" where
  "name_to_value dims = fold (\<lambda>d m. m(Name d \<mapsto> Dimension.Value d)) dims Map.empty"

definition substitute_wildcard :: "Dimension list \<Rightarrow> Dimension \<Rightarrow> Dimension" where
  "substitute_wildcard discovered d =
     (if Dimension.Value d = dimensionValueWildcard
      then (case name_to_value discovered (Name d) of
              Some v \<Rightarrow> d\<lparr>Dimension.Value := v\<rparr>
            | None \<Rightarrow> d)
      else d)"

definition substitute_wildcards :: "Dimension list \<Rightarrow> Dimension list \<Rightarrow> Dimension list" where
  "substitute_wildcards discovered spec = map (substitute_wildcard discovered) spec"

definition resolved :: "(string \<rightharpoonup> string) \<Rightarrow> string \<Rightarrow> string option \<Rightarrow> string option" where
  "resolved m1 n x =
     (if x = Some dimensionValueWildcard
      then (case m1 n of Some v \<Rightarrow> Some v | None \<Rightarrow> x) else x)"

definition wildcard_free :: "Dimension list \<Rightarrow> bool" where
  "wildcard_free dims = list_all (\<lambda>d. Dimension.Value d \<noteq> dimensionValueWildcard) dims"

abbreviation upd :: "Dimension \<Rightarrow> strmap \<Rightarrow> strmap" where
  "upd d m \<equiv> AList.update (Name d) (Dimension.Value d) m"

text \<open>
  The routing of \<^verbatim>\<open>readCloudwatchConfig\<close>: the statistics of an entry with the defaults
  filled in, the test of the code for its first branch (neither slice is nil, no wildcard
  value), the requests that the first branch adds, and the detail that the second branch
  adds.
\<close>

definition statistics_of :: "Config \<Rightarrow> string list" where
  "statistics_of c = (case Config.Statistic c of None \<Rightarrow> defaultStatistics | Some stats \<Rightarrow> stats)"

definition exact_branch :: "Config \<Rightarrow> bool" where
  "exact_branch c =
     (Config.MetricName c \<noteq> None \<and> Config.Dimensions c \<noteq> None
      \<and> list_all (\<lambda>d. Dimension.Value d \<noteq> dimensionValueWildcard) (elems (Config.Dimensions c)))"

text \<open>
  Exact mode in the words of the specification: the entry has metric names and has
  dimensions (a list that is nil or empty has none), and no dimension value is the
  wildcard. An entry is plain when neither of its two lists is empty without being nil;
  on plain entries the test of the code and exact mode agree.
\<close>

definition exact_mode :: "Config \<Rightarrow> bool" where
  "exact_mode c =
     (elems (Config.MetricName c) \<noteq> [] \<and> elems (Config.Dimensions c) \<noteq> []
      \<and> list_all (\<lambda>d. Dimension.Value d \<noteq> dimensionValueWildcard) (elems (Config.Dimensions c)))"

definition plain_entry :: "Config \<Rightarrow> bool" where
  "plain_entry c = (Config.MetricName c \<noteq> Some [] \<and> Config.Dimensions c \<noteq> Some [])"

definition exact_requests :: "Config \<Rightarrow> MetricsWithStatistics list" where
  "exact_requests c =
     map (\<lambda>name. \<lparr>CloudwatchMetric =
                     \<lparr>Metric.Namespace = Config.Namespace c, Metric.MetricName = name,
                      Metric.Dimensions = elems (Config.Dimensions c)\<rparr>,
                   MetricsWithStatistics.Statistic = statistics_of c\<rparr>)
       (elems (Config.MetricName c))"

definition namespace_detail :: "Tag list \<Rightarrow> Config \<Rightarrow> NamespaceDetail" where
  "namespace_detail tagsFilter c =
     \<lparr>ResourceTypeFilter = ResourceType c, Names = Config.MetricName c, Tags = tagsFilter,
      Statistics = statistics_of c,
      NamespaceDetail.Dimensions =
        (if elems (Config.Dimensions c) = [] then None else Config.Dimensions c)\<rparr>"

text \<open>
  The tags that \<^verbatim>\<open>InsertTags\<close> finds for one sub-identifier, and for all the
  sub-identifiers of an identifier in order.
\<close>

definition found_tags :: "(string \<Rightarrow> string option) \<Rightarrow> tagmap \<Rightarrow> string \<Rightarrow> Tag list" where
  "found_tags findShortIdentifierFromARN resourceTagMap v =
     (if elems (tags_of resourceTagMap v) \<noteq> [] then elems (tags_of resourceTagMap v)
      else if HasPrefix v ''arn:''
      then (case findShortIdentifierFromARN v of
              Some resourceID \<Rightarrow> elems (tags_of resourceTagMap resourceID)
            | None \<Rightarrow> [])
      else [])"

definition all_found_tags :: "(string \<Rightarrow> string option) \<Rightarrow> tagmap \<Rightarrow> string \<Rightarrow> Tag list" where
  "all_found_tags findShortIdentifierFromARN resourceTagMap identifier =
     concat (map (found_tags findShortIdentifierFromARN resourceTagMap)
       (Split identifier dimensionSeparator))"

definition tag_field_name :: "Tag \<Rightarrow> string" where
  "tag_field_name tag = ''aws.tags.'' @ DeDot (Key tag)"

definition tag_field :: "Tag \<Rightarrow> string \<times> 'f field_value" where
  "tag_field tag = (tag_field_name tag, Text (Tag.Value tag))"

definition with_tag_fields :: "Tag list \<Rightarrow> 'f Event \<Rightarrow> 'f Event" where
  "with_tag_fields tags event =
     fold (\<lambda>tag. put_field (tag_field_name tag) (Text (Tag.Value tag))) tags event"

text \<open>A string without the dimension separator.\<close>

definition comma_free :: "string \<Rightarrow> bool" where
  "comma_free s = (CHR '','' \<notin> set s)"

text \<open>
  The event after the two fields that \<^verbatim>\<open>InsertRootFields\<close> writes for every label, and
  after one field per pair of a dimension name and a dimension value.
\<close>

definition with_metric_fields :: "'f Event \<Rightarrow> 'f \<Rightarrow> string list \<Rightarrow> 'f Event" where
  "with_metric_fields event metricValue labels =
     put_field ''aws.cloudwatch.namespace'' (Text (labels ! 1))
       (put_field (''aws.'' @ StripNamespace (labels ! 1) @ ''.metrics.'' @ DeDot (labels ! 0)
                   @ ''.'' @ fst (StatisticLookup (labels ! 2)))
          (Number metricValue) event)"

definition with_dimension_fields :: "(string \<times> string) list \<Rightarrow> 'f Event \<Rightarrow> 'f Event" where
  "with_dimension_fields pairs event =
     fold (\<lambda>(dimName, dimValue). put_field (''aws.dimensions.'' @ dimName) (Text dimValue))
       pairs event"

text \<open>A string without the label separator.\<close>

definition pipe_free :: "string \<Rightarrow> bool" where
  "pipe_free s = (CHR ''|'' \<notin> set s)"






section \<open>Inputs of the examples\<close>

text \<open>The metrics of the examples.\<close>

definition cpu_metric :: Metric where
  "cpu_metric = \<lparr>Metric.Namespace = ''AWS/EC2'', Metric.MetricName = ''CPUUtilization'',
     Metric.Dimensions = [\<lparr>Name = ''InstanceId'', Value = ''i-1''\<rparr>]\<rparr>"

definition billing_metric :: Metric where
  "billing_metric = \<lparr>Metric.Namespace = ''AWS/Billing'', Metric.MetricName = ''EstimatedCharges'',
     Metric.Dimensions = []\<rparr>"

text \<open>The dimensions of the examples.\<close>

definition dimA :: "string \<Rightarrow> Dimension" where "dimA v = \<lparr>Name = ''A'', Value = v\<rparr>"
definition dimB :: "string \<Rightarrow> Dimension" where "dimB v = \<lparr>Name = ''B'', Value = v\<rparr>"

text \<open>Entries of the configuration for the examples.\<close>

definition ec2_exact :: Config where
  "ec2_exact = \<lparr>Config.Namespace = ''AWS/EC2'', Config.MetricName = Some [''CPUUtilization''],
     Config.Dimensions = Some [\<lparr>Name = ''InstanceId'', Value = ''i-123''\<rparr>],
     ResourceType = ''ec2:instance'', Config.Statistic = None\<rparr>"

definition no_names :: Config where
  "no_names = ec2_exact\<lparr>Config.MetricName := Some []\<rparr>"

definition no_dimensions :: Config where
  "no_dimensions = ec2_exact\<lparr>Config.Dimensions := Some []\<rparr>"

definition ec2_wildcard :: Config where
  "ec2_wildcard = ec2_exact\<lparr>Config.Dimensions := Some [\<lparr>Name = ''InstanceId'', Value = ''*''\<rparr>]\<rparr>"

text \<open>Inputs of the examples.\<close>

definition plain_metric :: Metric where
  "plain_metric = \<lparr>Metric.Namespace = ''AWS/EC2'', Metric.MetricName = ''m'',
     Metric.Dimensions = []\<rparr>"

definition blank_value_metric :: Metric where
  "blank_value_metric = \<lparr>Metric.Namespace = ''AWS/EC2'', Metric.MetricName = ''m'',
     Metric.Dimensions = [\<lparr>Name = ''InstanceId'', Value = []\<rparr>]\<rparr>"

definition empty_event :: "nat Event" where
  "empty_event = \<lparr>Timestamp = 1, RootFields = []\<rparr>"

text \<open>A tag map and a resolver of ARNs for the examples.\<close>

definition short_id :: "string \<Rightarrow> string option" where
  "short_id v = (if v = ''arn:aws:s3:::bucket'' then Some ''bucket'' else None)"

definition prod_tags :: tagmap where
  "prod_tags = [(''bucket'', Some [\<lparr>Key = ''env'', Value = ''prod''\<rparr>, \<lparr>Key = ''a.b'', Value = ''x.y''\<rparr>]),
                (''i-1'', Some [\<lparr>Key = ''env'', Value = ''dev''\<rparr>])]"















section \<open>Properties\<close>

subsection \<open>Strings\<close>

lemma HasPrefix_p: "HasPrefix s ''p'' \<longleftrightarrow> (\<exists>r. s = CHR ''p'' # r)"
  by (cases s) (simp_all add: HasPrefix_def)

lemma Split_no_sep: "c \<notin> set s \<Longrightarrow> Split s [c] = [s]"
  by (induction s) auto

lemma Split_sep: "c \<notin> set a \<Longrightarrow> Split (a @ c # r) [c] = a # Split r [c]"
  by (induction a) auto

lemma length_Split: "length (Split s [c]) = Suc (count_list s c)"
  by (induction s) (auto split: list.splits)

subsection \<open>Statistic names\<close>

text \<open>
  C6. \<^verbatim>\<open>StatisticLookup\<close> answers \<open>ok = True\<close> with the canonical form for exactly the
  five names Average, Sum, Maximum, Minimum and SampleCount; any other string that starts
  with \<open>p\<close> comes back unchanged with \<open>ok = True\<close>; every remaining string gives
  \<open>ok = False\<close> (and comes back unchanged).
\<close>

theorem StatisticLookup_cases:
  "StatisticLookup s =
     (if s = ''Average'' then (''avg'', True)
      else if s = ''Sum'' then (''sum'', True)
      else if s = ''Maximum'' then (''max'', True)
      else if s = ''Minimum'' then (''min'', True)
      else if s = ''SampleCount'' then (''count'', True)
      else if (\<exists>r. s = CHR ''p'' # r) then (s, True)
      else (s, False))"
  by (simp add: StatisticLookup_def statisticLookupTable_def HasPrefix_p)

theorem StatisticLookup_cases_witness:
  "StatisticLookup ''Average'' = (''avg'', True)
   \<and> StatisticLookup ''p95'' = (''p95'', True)
   \<and> snd (StatisticLookup ''bogus'') = False"
  using StatisticLookup_cases [of "''Average''"] StatisticLookup_cases [of "''p95''"]
    StatisticLookup_cases [of "''bogus''"]
  by simp

subsection \<open>Query identifiers\<close>

lemma of_char_digit: "d < 10 \<Longrightarrow> (of_char (digit_char d) :: nat) = 48 + d"
  by (simp add: digit_char_def)

lemma is_digit_digit_char: "d < 10 \<Longrightarrow> is_digit (digit_char d)"
  by (simp add: is_digit_def of_char_digit)

lemma Itoa_digits: "\<forall>c \<in> set (Itoa n). is_digit c"
proof (induction n rule: Itoa.induct)
  case (1 n)
  show ?case
  proof (cases "n < 10")
    case True
    then show ?thesis by (subst Itoa.simps) (simp add: is_digit_digit_char)
  next
    case False
    with 1 show ?thesis by (subst Itoa.simps) (simp add: is_digit_digit_char)
  qed
qed

lemma Itoa_value: "foldl (\<lambda>acc c. 10 * acc + (of_char c - 48)) 0 (Itoa n) = n"
proof (induction n rule: Itoa.induct)
  case (1 n)
  show ?case
  proof (cases "n < 10")
    case True
    then show ?thesis by (subst Itoa.simps) (simp add: of_char_digit)
  next
    case False
    with 1 show ?thesis by (subst Itoa.simps) (simp add: of_char_digit)
  qed
qed

lemma Itoa_inj: "Itoa n = Itoa m \<Longrightarrow> n = m"
  by (metis Itoa_value)

lemma takeWhile_digits_Itoa:
  "takeWhile is_digit (Itoa n @ ''stats'' @ r) = Itoa n"
proof -
  have "\<not> is_digit CHR ''s''" by (simp add: is_digit_def)
  then show ?thesis using Itoa_digits [of n] by (simp add: takeWhile_append)
qed

lemma query_id_inj: "query_id i j = query_id i' j' \<Longrightarrow> i = i' \<and> j = j'"
proof -
  assume a: "query_id i j = query_id i' j'"
  then have e: "Itoa i @ ''stats'' @ Itoa j = Itoa i' @ ''stats'' @ Itoa j'"
    by (simp add: query_id_def)
  then have "takeWhile is_digit (Itoa i @ ''stats'' @ Itoa j)
              = takeWhile is_digit (Itoa i' @ ''stats'' @ Itoa j')" by simp
  then have i: "Itoa i = Itoa i'" by (simp only: takeWhile_digits_Itoa)
  with e have "Itoa j = Itoa j'" by simp
  with i show ?thesis by (simp add: Itoa_inj)
qed

lemma ids_queries_of_metric:
  "map Id (queries_of_metric p i m j ss) = map (query_id i) [j ..< j + length ss]"
  by (induction ss arbitrary: j) (simp_all add: upt_rec)

lemma ids_queries_from:
  "q \<in> set (queries_from p i ms) \<Longrightarrow> \<exists>k j. i \<le> k \<and> Id q = query_id k j"
proof (induction ms arbitrary: i)
  case Nil then show ?case by simp
next
  case (Cons m ms)
  from Cons.prems consider
    (here) "q \<in> set (queries_of_metric p i m 0 (MetricsWithStatistics.Statistic m))"
    | (later) "q \<in> set (queries_from p (Suc i) ms)" by auto
  then show ?case
  proof cases
    case here
    then have "Id q \<in> set (map Id (queries_of_metric p i m 0 (MetricsWithStatistics.Statistic m)))"
      by simp
    then show ?thesis unfolding ids_queries_of_metric by auto
  next
    case later
    from Cons.IH [OF later] obtain k j where "Suc i \<le> k" "Id q = query_id k j" by blast
    then show ?thesis by (intro exI [of _ k] exI [of _ j]) simp
  qed
qed

lemma distinct_ids_queries_from: "distinct (map Id (queries_from p i ms))"
proof (induction ms arbitrary: i)
  case Nil show ?case by simp
next
  case (Cons m ms)
  have d1: "distinct (map (query_id i) [0 ..< length (MetricsWithStatistics.Statistic m)])"
    by (auto simp: distinct_map inj_on_def dest: query_id_inj)
  have d2: "query_id i j \<noteq> Id q" if "q \<in> set (queries_from p (Suc i) ms)" for j q
  proof
    assume e: "query_id i j = Id q"
    from ids_queries_from [OF that] obtain k j' where "Suc i \<le> k" "Id q = query_id k j'"
      by blast
    with e query_id_inj [of i j k j'] show False by simp
  qed
  show ?case using Cons.IH [of "Suc i"] d1 d2 by (auto simp: ids_queries_of_metric)
qed

text \<open>
  C8. The identifiers that \<^verbatim>\<open>CreateMetricDataQueries\<close> assigns are pairwise distinct
  within the batch it returns, and distinct pairs of a metric index and a statistic index
  give distinct identifiers.
\<close>

theorem ids_distinct:
  "distinct (map Id (CreateMetricDataQueries listMetricsTotal periodInSec))
   \<and> inj (\<lambda>(i, j). query_id i j)"
  by (auto simp: CreateMetricDataQueries_def distinct_ids_queries_from inj_on_def dest: query_id_inj)

theorem ids_distinct_witness:
  "map Id (CreateMetricDataQueries
       [\<lparr>CloudwatchMetric = cpu_metric, MetricsWithStatistics.Statistic = [''Average'', ''Sum'']\<rparr>,
        \<lparr>CloudwatchMetric = billing_metric, MetricsWithStatistics.Statistic = [''Maximum'']\<rparr>] 60)
     = [''cw0stats0'', ''cw0stats1'', ''cw1stats0'']
   \<and> distinct (map Id (CreateMetricDataQueries
       [\<lparr>CloudwatchMetric = cpu_metric, MetricsWithStatistics.Statistic = [''Average'', ''Sum'']\<rparr>,
        \<lparr>CloudwatchMetric = billing_metric, MetricsWithStatistics.Statistic = [''Maximum'']\<rparr>] 60))"
proof -
  have "map Id (CreateMetricDataQueries
       [\<lparr>CloudwatchMetric = cpu_metric, MetricsWithStatistics.Statistic = [''Average'', ''Sum'']\<rparr>,
        \<lparr>CloudwatchMetric = billing_metric, MetricsWithStatistics.Statistic = [''Maximum'']\<rparr>] 60)
     = [''cw0stats0'', ''cw0stats1'', ''cw1stats0'']"
    by code_simp
  moreover from ids_distinct
  have "distinct (map Id (CreateMetricDataQueries
       [\<lparr>CloudwatchMetric = cpu_metric, MetricsWithStatistics.Statistic = [''Average'', ''Sum'']\<rparr>,
        \<lparr>CloudwatchMetric = billing_metric, MetricsWithStatistics.Statistic = [''Maximum'']\<rparr>] 60))"
    by (rule conjunct1)
  ultimately show ?thesis by (rule conjI)
qed

subsection \<open>Labels\<close>

lemma ConstructLabel_loop_Join:
  "ConstructLabel_loop dims (a, b) =
     (a @ Join (map Name dims) dimensionSeparator,
      b @ Join (map Dimension.Value dims) dimensionSeparator)"
proof (induction dims arbitrary: a b)
  case Nil show ?case by simp
next
  case (Cons d ds)
  show ?case
  proof (cases ds)
    case Nil
    then show ?thesis by (simp add: Let_def)
  next
    case (Cons d' ds')
    then have "ConstructLabel_loop (d # ds) (a, b)
        = ConstructLabel_loop ds ((a @ Name d) @ dimensionSeparator,
            (b @ Dimension.Value d) @ dimensionSeparator)"
      by (simp add: Let_def)
    also have "\<dots> = ((a @ Name d) @ dimensionSeparator @ Join (map Name ds) dimensionSeparator,
        (b @ Dimension.Value d) @ dimensionSeparator
          @ Join (map Dimension.Value ds) dimensionSeparator)"
      using Cons.IH [of "(a @ Name d) @ dimensionSeparator"
          "(b @ Dimension.Value d) @ dimensionSeparator"] by simp
    finally show ?thesis using Cons by simp
  qed
qed

lemma ConstructLabel_eq:
  "ConstructLabel m st =
     (let dimNames = Join (map Name (Metric.Dimensions m)) dimensionSeparator;
          dimValues = Join (map Dimension.Value (Metric.Dimensions m)) dimensionSeparator
      in if dimNames \<noteq> [] \<and> dimValues \<noteq> []
         then Metric.MetricName m @ ''|'' @ Metric.Namespace m @ ''|'' @ st @ ''|''
                @ dimNames @ ''|'' @ dimValues
         else Metric.MetricName m @ ''|'' @ Metric.Namespace m @ ''|'' @ st)"
  by (simp add: ConstructLabel_def ConstructLabel_loop_Join labelSeparator_def Let_def)

lemma set_Join: "set (Join xs sep) \<subseteq> set sep \<union> \<Union> (set ` set xs)"
  by (induction xs sep rule: Join.induct) auto

lemma Split3:
  "pipe_free a \<Longrightarrow> pipe_free b \<Longrightarrow> pipe_free c \<Longrightarrow>
   Split (a @ CHR ''|'' # b @ CHR ''|'' # c) ''|'' = [a, b, c]"
  by (simp add: pipe_free_def Split_sep Split_no_sep)

lemma Split5:
  "pipe_free a \<Longrightarrow> pipe_free b \<Longrightarrow> pipe_free c \<Longrightarrow> pipe_free d \<Longrightarrow> pipe_free e \<Longrightarrow>
   Split (a @ CHR ''|'' # b @ CHR ''|'' # c @ CHR ''|'' # d @ CHR ''|'' # e) ''|''
     = [a, b, c, d, e]"
  by (simp add: pipe_free_def Split_sep Split_no_sep)

lemma pipe_free_Join:
  "\<forall>x \<in> set xs. pipe_free x \<Longrightarrow> pipe_free (Join xs dimensionSeparator)"
  using set_Join [of xs dimensionSeparator] by (auto simp: pipe_free_def dimensionSeparator_def)

text \<open>
  C2, as amended. For every metric whose name, namespace, statistic, dimension names and
  dimension values contain no pipe character, the label of \<^verbatim>\<open>ConstructLabel\<close> splits on
  the pipe into exactly the three fields name, namespace, statistic when the dimension
  list is empty, and into exactly the five fields name, namespace, statistic,
  comma-joined dimension names, comma-joined dimension values, in the order of the
  dimension list, when both joined strings are non-empty.
\<close>

theorem ConstructLabel_roundtrip:
  assumes "pipe_free (Metric.MetricName m)" "pipe_free (Metric.Namespace m)" "pipe_free st"
    and "\<forall>d \<in> set (Metric.Dimensions m). pipe_free (Name d) \<and> pipe_free (Dimension.Value d)"
  shows "(Metric.Dimensions m = [] \<longrightarrow>
            Split (ConstructLabel m st) labelSeparator
              = [Metric.MetricName m, Metric.Namespace m, st])
       \<and> (Join (map Name (Metric.Dimensions m)) dimensionSeparator \<noteq> []
          \<and> Join (map Dimension.Value (Metric.Dimensions m)) dimensionSeparator \<noteq> [] \<longrightarrow>
            Split (ConstructLabel m st) labelSeparator
              = [Metric.MetricName m, Metric.Namespace m, st,
                 Join (map Name (Metric.Dimensions m)) dimensionSeparator,
                 Join (map Dimension.Value (Metric.Dimensions m)) dimensionSeparator])"
proof -
  have n: "pipe_free (Join (map Name (Metric.Dimensions m)) dimensionSeparator)"
    using assms(4) by (intro pipe_free_Join) simp
  have v: "pipe_free (Join (map Dimension.Value (Metric.Dimensions m)) dimensionSeparator)"
    using assms(4) by (intro pipe_free_Join) simp
  show ?thesis
    using assms(1-3) n v
    by (simp add: ConstructLabel_eq Let_def labelSeparator_def Split3 Split5)
qed

theorem ConstructLabel_roundtrip_witness:
  "Split (ConstructLabel cpu_metric ''avg'') labelSeparator
     = [''CPUUtilization'', ''AWS/EC2'', ''avg'', ''InstanceId'', ''i-1'']
   \<and> Split (ConstructLabel billing_metric ''max'') labelSeparator
     = [''EstimatedCharges'', ''AWS/Billing'', ''max'']"
proof -
  have "pipe_free (Metric.MetricName cpu_metric)" "pipe_free (Metric.Namespace cpu_metric)"
    "pipe_free ''avg''"
    "\<forall>d \<in> set (Metric.Dimensions cpu_metric). pipe_free (Name d) \<and> pipe_free (Dimension.Value d)"
    by (simp_all add: cpu_metric_def pipe_free_def)
  from ConstructLabel_roundtrip [OF this]
  have five: "Split (ConstructLabel cpu_metric ''avg'') labelSeparator
     = [''CPUUtilization'', ''AWS/EC2'', ''avg'', ''InstanceId'', ''i-1'']"
    by (simp add: cpu_metric_def dimensionSeparator_def)
  have "pipe_free (Metric.MetricName billing_metric)"
    "pipe_free (Metric.Namespace billing_metric)" "pipe_free ''max''"
    "\<forall>d \<in> set (Metric.Dimensions billing_metric).
       pipe_free (Name d) \<and> pipe_free (Dimension.Value d)"
    by (simp_all add: billing_metric_def pipe_free_def)
  from ConstructLabel_roundtrip [OF this]
  have three: "Split (ConstructLabel billing_metric ''max'') labelSeparator
     = [''EstimatedCharges'', ''AWS/Billing'', ''max'']"
    by (simp add: billing_metric_def)
  from five three show ?thesis by simp
qed

text \<open>
  C2 as stated fails: a metric name that contains a pipe gives four fields for an empty
  dimension list, and a single dimension with an empty name gives three fields for a
  non-empty dimension list.
\<close>

theorem ConstructLabel_roundtrip_counterexample:
  "length (Split (ConstructLabel
      \<lparr>Metric.Namespace = ''AWS/EC2'', Metric.MetricName = ''a|b'', Metric.Dimensions = []\<rparr>
      ''avg'') labelSeparator) = 4
   \<and> length (Split (ConstructLabel
      \<lparr>Metric.Namespace = ''AWS/EC2'', Metric.MetricName = ''a'',
       Metric.Dimensions = [\<lparr>Name = [], Value = ''i-1''\<rparr>]\<rparr>
      ''avg'') labelSeparator) = 3"
  by (simp add: ConstructLabel_def labelSeparator_def dimensionSeparator_def)

subsection \<open>Comparing dimensions\<close>

lemma fill_fold:
  "length d1 = length d2 \<Longrightarrow>
   fill_name_to_value d1 d2 (m1, m2) = (fold upd d1 m1, fold upd d2 m2)"
  by (induction d1 d2 arbitrary: m1 m2 rule: list_induct2) simp_all

lemma map_of_fold_upd:
  "map_of (fold upd ds m) = fold (\<lambda>d m. m(Name d \<mapsto> Dimension.Value d)) ds (map_of m)"
  by (induction ds arbitrary: m) (simp_all add: update_conv')

lemma distinct_fold_upd:
  "distinct (map fst m) \<Longrightarrow> distinct (map fst (fold upd ds m))"
  by (induction ds arbitrary: m) (simp_all add: distinct_update)

lemma distinct_resolve:
  "distinct (map fst m2) \<Longrightarrow> distinct (map fst (resolve_wildcards es m2))"
  by (induction es m2 rule: resolve_wildcards.induct)
     (auto simp: distinct_update split: option.splits)

lemma map_of_resolve:
  "distinct (map fst es) \<Longrightarrow>
   map_of (resolve_wildcards es m2) n =
     (case map_of es n of
        Some v1 \<Rightarrow> if map_of m2 n = Some dimensionValueWildcard then Some v1 else map_of m2 n
      | None \<Rightarrow> map_of m2 n)"
proof (induction es arbitrary: m2)
  case Nil
  show ?case by simp
next
  case (Cons e rest)
  obtain name v1 where e: "e = (name, v1)" by (cases e)
  from Cons.prems e have d: "distinct (map fst rest)" and nin: "map_of rest name = None"
    by (auto simp: map_of_eq_None_iff)
  note IH = Cons.IH [OF d]
  show ?case
  proof (cases "map_of m2 name = Some dimensionValueWildcard")
    case True
    then have "resolve_wildcards (e # rest) m2
        = resolve_wildcards rest (AList.update name v1 m2)" by (simp add: e)
    with IH [of "AList.update name v1 m2"] True nin show ?thesis
      by (auto simp: e update_conv' split: option.splits)
  next
    case False
    then have "resolve_wildcards (e # rest) m2 = resolve_wildcards rest m2"
      by (auto simp: e split: option.splits)
    with IH [of m2] False nin show ?thesis
      by (auto simp: e split: option.splits)
  qed
qed

lemma DeepEqual_iff:
  assumes "distinct (map fst a)" "distinct (map fst b)"
  shows "DeepEqual a b \<longleftrightarrow> map_of a = map_of b"
proof
  assume de: "DeepEqual a b"
  then have sub: "set a \<subseteq> set b"
    by (auto simp: DeepEqual_def list_all_iff dest: map_of_SomeD)
  from assms have "distinct a" "distinct b" by (auto simp: distinct_map)
  then have "card (set a) = card (set b)"
    using de by (simp add: DeepEqual_def distinct_card)
  with sub have "set a = set b" by (simp add: card_subset_eq)
  with assms show "map_of a = map_of b" by (simp add: map_of_inject_set)
next
  assume eq: "map_of a = map_of b"
  with assms have s: "set a = set b" by (simp add: map_of_inject_set)
  from assms have "distinct a" "distinct b" by (auto simp: distinct_map)
  with s have "length a = length b" by (metis distinct_card)
  moreover have "map_of b k = Some v" if "(k, v) \<in> set a" for k v
    using map_of_is_SomeI [OF assms(1) that] eq by simp
  then have "list_all (\<lambda>(k, v1). map_of b k = Some v1) a"
    by (auto simp: list_all_iff)
  ultimately show "DeepEqual a b" by (simp add: DeepEqual_def)
qed

lemma resolved_step:
  "(\<lambda>n. resolved (name_to_value d1) n (acc n))
      (Name (substitute_wildcard d1 d) \<mapsto> Dimension.Value (substitute_wildcard d1 d))
    = (\<lambda>n. resolved (name_to_value d1) n ((acc(Name d \<mapsto> Dimension.Value d)) n))"
  by (auto simp: substitute_wildcard_def resolved_def fun_eq_iff split: option.splits)

lemma fold_substitute:
  "fold (\<lambda>d m. m(Name d \<mapsto> Dimension.Value d)) (substitute_wildcards d1 ds)
     (\<lambda>n. resolved (name_to_value d1) n (acc n))
   = (\<lambda>n. resolved (name_to_value d1) n
        (fold (\<lambda>d m. m(Name d \<mapsto> Dimension.Value d)) ds acc n))"
proof (induction ds arbitrary: acc)
  case Nil show ?case by (simp add: substitute_wildcards_def)
next
  case (Cons d ds)
  have "fold (\<lambda>d m. m(Name d \<mapsto> Dimension.Value d)) (substitute_wildcards d1 (d # ds))
     (\<lambda>n. resolved (name_to_value d1) n (acc n))
    = fold (\<lambda>d m. m(Name d \<mapsto> Dimension.Value d)) (substitute_wildcards d1 ds)
       ((\<lambda>n. resolved (name_to_value d1) n (acc n))
          (Name (substitute_wildcard d1 d) \<mapsto> Dimension.Value (substitute_wildcard d1 d)))"
    by (simp add: substitute_wildcards_def)
  also have "\<dots> = fold (\<lambda>d m. m(Name d \<mapsto> Dimension.Value d)) (substitute_wildcards d1 ds)
       (\<lambda>n. resolved (name_to_value d1) n ((acc(Name d \<mapsto> Dimension.Value d)) n))"
    by (simp only: resolved_step)
  also have "\<dots> = (\<lambda>n. resolved (name_to_value d1) n
        (fold (\<lambda>d m. m(Name d \<mapsto> Dimension.Value d)) ds (acc(Name d \<mapsto> Dimension.Value d)) n))"
    by (rule Cons.IH)
  finally show ?case by (simp only: fold_simps o_apply)
qed

lemma name_to_value_substitute:
  "name_to_value (substitute_wildcards d1 d2) n
     = resolved (name_to_value d1) n (name_to_value d2 n)"
proof -
  have "(\<lambda>n. resolved (name_to_value d1) n (Map.empty n)) = Map.empty"
    by (simp add: resolved_def fun_eq_iff)
  with fold_substitute [of d1 d2 Map.empty] show ?thesis
    by (simp add: name_to_value_def)
qed

lemma CompareAWSDimensions_maps:
  "CompareAWSDimensions d1 d2 \<longleftrightarrow>
     length d1 = length d2 \<and> name_to_value d1 = name_to_value (substitute_wildcards d1 d2)"
proof (cases "length d1 = length d2")
  case False
  then show ?thesis by (simp add: CompareAWSDimensions_def)
next
  case True
  let ?a1 = "fold upd d1 []" and ?a2 = "fold upd d2 []"
  have d1: "distinct (map fst ?a1)" and d2: "distinct (map fst ?a2)"
    by (simp_all add: distinct_fold_upd)
  have m1: "map_of ?a1 = name_to_value d1" and m2: "map_of ?a2 = name_to_value d2"
    by (simp_all add: map_of_fold_upd name_to_value_def)
  have "map_of (resolve_wildcards ?a1 ?a2) = name_to_value (substitute_wildcards d1 d2)"
    by (rule ext)
       (simp add: map_of_resolve [OF d1] m1 m2 name_to_value_substitute resolved_def
          split: option.splits)
  moreover have "CompareAWSDimensions d1 d2 \<longleftrightarrow> DeepEqual ?a1 (resolve_wildcards ?a1 ?a2)"
    using True by (simp add: CompareAWSDimensions_def fill_fold)
  ultimately show ?thesis
    using True DeepEqual_iff [OF d1 distinct_resolve [OF d2], of ?a1] m1 by simp
qed

lemma substitute_wildcard_free: "wildcard_free d2 \<Longrightarrow> substitute_wildcards d1 d2 = d2"
  by (induction d2)
     (simp_all add: wildcard_free_def substitute_wildcards_def substitute_wildcard_def)

text \<open>
  C4. \<^verbatim>\<open>CompareAWSDimensions\<close> is true exactly when the two lists have the same length
  and, once every wildcard value of the second list is replaced by the value the first
  list gives to the same name, the two name-to-value mappings are identical. The comparison
  commutes up to that replacement: when the first list holds no wildcard, comparing it with
  the second list is comparing the resolved second list with it, and two lists without
  wildcards compare the same in either order. On the three examples it gives true, false
  and false.
\<close>

theorem CompareAWSDimensions_spec:
  "(CompareAWSDimensions d1 d2 \<longleftrightarrow>
      length d1 = length d2 \<and> name_to_value d1 = name_to_value (substitute_wildcards d1 d2))
   \<and> (wildcard_free d1 \<longrightarrow>
        CompareAWSDimensions d1 d2 = CompareAWSDimensions (substitute_wildcards d1 d2) d1)
   \<and> (wildcard_free d1 \<and> wildcard_free d2 \<longrightarrow>
        CompareAWSDimensions d1 d2 = CompareAWSDimensions d2 d1)
   \<and> CompareAWSDimensions [dimA ''x''] [dimA ''*'']
   \<and> \<not> CompareAWSDimensions [dimA ''x''] [dimA ''y'']
   \<and> \<not> CompareAWSDimensions [dimA ''x'', dimB ''y''] [dimA ''x'']"
proof -
  have a: "CompareAWSDimensions d1 d2 = CompareAWSDimensions (substitute_wildcards d1 d2) d1"
    if "wildcard_free d1"
  proof -
    have "length (substitute_wildcards d1 d2) = length d2"
      by (simp add: substitute_wildcards_def)
    with that show ?thesis
      by (auto simp: CompareAWSDimensions_maps substitute_wildcard_free)
  qed
  have b: "CompareAWSDimensions d1 d2 = CompareAWSDimensions d2 d1"
    if "wildcard_free d1" "wildcard_free d2"
    using that by (auto simp: CompareAWSDimensions_maps substitute_wildcard_free)
  have c: "CompareAWSDimensions [dimA ''x''] [dimA ''*'']"
    by (simp add: CompareAWSDimensions_def DeepEqual_def dimA_def dimensionValueWildcard_def)
  have d: "\<not> CompareAWSDimensions [dimA ''x''] [dimA ''y'']"
    by (simp add: CompareAWSDimensions_def DeepEqual_def dimA_def dimensionValueWildcard_def)
  have e: "\<not> CompareAWSDimensions [dimA ''x'', dimB ''y''] [dimA ''x'']"
    by (simp add: CompareAWSDimensions_def)
  from a b c d e show ?thesis by (simp add: CompareAWSDimensions_maps)
qed

theorem CompareAWSDimensions_spec_witness:
  "wildcard_free [dimA ''x'', dimB ''y''] \<and> wildcard_free [dimB ''y'', dimA ''x'']
   \<and> CompareAWSDimensions [dimA ''x'', dimB ''y''] [dimB ''y'', dimA ''x'']
   \<and> CompareAWSDimensions [dimB ''y'', dimA ''x''] [dimA ''x'', dimB ''y'']"
proof -
  have w: "wildcard_free [dimA ''x'', dimB ''y'']" "wildcard_free [dimB ''y'', dimA ''x'']"
    by (simp_all add: wildcard_free_def dimA_def dimB_def dimensionValueWildcard_def)
  have c: "CompareAWSDimensions [dimA ''x'', dimB ''y''] [dimB ''y'', dimA ''x'']"
    by (simp add: CompareAWSDimensions_def DeepEqual_def dimA_def dimB_def
          dimensionValueWildcard_def)
  from CompareAWSDimensions_spec [of "[dimA ''x'', dimB ''y'']" "[dimB ''y'', dimA ''x'']"] w c
  show ?thesis by simp
qed

subsection \<open>Reading the configuration\<close>

lemma ContainsWildcard_iff:
  "ConfigDimensionValueContainsWildcard ds \<longleftrightarrow>
     \<not> list_all (\<lambda>d. Dimension.Value d \<noteq> dimensionValueWildcard) ds"
  by (induction ds) simp_all

lemma Dimension_copy: "\<lparr>Name = Name dim, Value = Dimension.Value dim\<rparr> = dim"
  by (cases dim) simp

lemma fold_append_slice:
  "fold (\<lambda>dim acc. append_slice acc \<lparr>Name = Name dim, Value = Dimension.Value dim\<rparr>) ds acc
     = (if ds = [] then acc else Some (elems acc @ ds))"
  by (induction ds arbitrary: acc) (simp_all add: append_slice_def elems_def Dimension_copy)

lemma fold_snoc_map: "fold (\<lambda>x acc. acc @ [f x]) xs acc = acc @ map f xs"
  by (induction xs arbitrary: acc) simp_all

lemma elems_simps: "elems None = []" "elems (Some xs) = xs"
  by (simp_all add: elems_def)

lemma copy_dimensions:
  "fold (\<lambda>dim acc. append_slice acc \<lparr>Name = Name dim, Value = Dimension.Value dim\<rparr>)
      (elems ds) None
   = (if elems ds = [] then None else ds)"
  by (cases ds) (simp_all add: fold_append_slice elems_simps)

lemma elems_copy: "elems (if elems ds = [] then None else ds) = elems ds"
  by (simp add: elems_simps)

lemma readCloudwatchConfig_entry_eq:
  "readCloudwatchConfig_entry tagsFilter c (mws, rtt, nsd) =
     (if exact_branch c
      then (mws @ exact_requests c,
            if ResourceType c \<noteq> [] then AList.update (ResourceType c) tagsFilter rtt else rtt,
            nsd)
      else (mws, rtt,
            AList.update (Config.Namespace c)
              (elems (map_of nsd (Config.Namespace c)) @ [namespace_detail tagsFilter c]) nsd))"
proof (cases "Config.Statistic c")
  case None
  then have s: "statistics_of c = defaultStatistics" by (simp add: statistics_of_def)
  show ?thesis
    unfolding readCloudwatchConfig_entry_def Let_def
    by (simp add: None s copy_dimensions elems_copy elems_simps exact_branch_def
          exact_requests_def namespace_detail_def ContainsWildcard_iff fold_snoc_map
        del: not_None_eq)
next
  case (Some stats)
  then have s: "statistics_of c = stats" by (simp add: statistics_of_def)
  show ?thesis
    unfolding readCloudwatchConfig_entry_def Let_def
    by (simp add: Some s copy_dimensions elems_copy elems_simps exact_branch_def
          exact_requests_def namespace_detail_def ContainsWildcard_iff fold_snoc_map
        del: not_None_eq)
qed

lemma fold_entries:
  "fold (readCloudwatchConfig_entry tagsFilter) cfgs (mws, rtt, nsd) = (mws', rtt', nsd') \<Longrightarrow>
   mws' = mws @ concat (map exact_requests (filter exact_branch cfgs))
   \<and> map_of rtt' rt =
       (if rt \<noteq> [] \<and> (\<exists>c \<in> set cfgs. exact_branch c \<and> ResourceType c = rt)
        then Some tagsFilter else map_of rtt rt)
   \<and> elems (map_of nsd' ns) =
       elems (map_of nsd ns)
       @ map (namespace_detail tagsFilter)
           (filter (\<lambda>c. \<not> exact_branch c \<and> Config.Namespace c = ns) cfgs)
   \<and> (map_of nsd' ns = None \<longleftrightarrow>
        map_of nsd ns = None
        \<and> filter (\<lambda>c. \<not> exact_branch c \<and> Config.Namespace c = ns) cfgs = [])"
proof (induction cfgs arbitrary: mws rtt nsd)
  case Nil
  then show ?case by simp
next
  case (Cons c cfgs)
  show ?case
  proof (cases "exact_branch c")
    case True
    with Cons.prems have "fold (readCloudwatchConfig_entry tagsFilter) cfgs
        (mws @ exact_requests c,
         if ResourceType c \<noteq> [] then AList.update (ResourceType c) tagsFilter rtt else rtt,
         nsd) = (mws', rtt', nsd')"
      by (simp add: readCloudwatchConfig_entry_eq)
    from Cons.IH [OF this] True show ?thesis
      by (auto simp: update_conv')
  next
    case False
    with Cons.prems have "fold (readCloudwatchConfig_entry tagsFilter) cfgs
        (mws, rtt,
         AList.update (Config.Namespace c)
           (elems (map_of nsd (Config.Namespace c)) @ [namespace_detail tagsFilter c]) nsd)
        = (mws', rtt', nsd')"
      by (simp add: readCloudwatchConfig_entry_eq)
    from Cons.IH [OF this] False show ?thesis
      by (auto simp: update_conv' elems_def)
  qed
qed

lemma readCloudwatchConfig_branches:
  "MetricsWithStats (fst (readCloudwatchConfig cfgs tagsFilter))
     = concat (map exact_requests (filter exact_branch cfgs))
   \<and> map_of (ResourceTypeFilters (fst (readCloudwatchConfig cfgs tagsFilter))) rt
     = (if rt \<noteq> [] \<and> (\<exists>c \<in> set cfgs. exact_branch c \<and> ResourceType c = rt)
        then Some tagsFilter else None)
   \<and> map_of (snd (readCloudwatchConfig cfgs tagsFilter)) ns
     = (case map (namespace_detail tagsFilter)
               (filter (\<lambda>c. \<not> exact_branch c \<and> Config.Namespace c = ns) cfgs) of
          [] \<Rightarrow> None
        | details \<Rightarrow> Some details)"
proof -
  obtain mws rtt nsd where
    f: "fold (readCloudwatchConfig_entry tagsFilter) cfgs ([], [], []) = (mws, rtt, nsd)"
    by (metis prod_cases3)
  from fold_entries [OF f, of rt ns] f show ?thesis
    by (cases "map_of nsd ns")
       (auto simp: readCloudwatchConfig_def elems_def split: list.splits)
qed

lemma plain_entry_exact: "plain_entry c \<Longrightarrow> exact_branch c = exact_mode c"
  by (cases "Config.MetricName c"; cases "Config.Dimensions c")
     (auto simp: plain_entry_def exact_branch_def exact_mode_def elems_simps)

text \<open>
  On a configuration of plain entries the routing is the one of the specification: exact
  mode gives one request per metric name and records the resource type, every other
  entry adds one detail to the list of its namespace.
\<close>

lemma readCloudwatchConfig_plain:
  assumes "\<forall>c \<in> set cfgs. plain_entry c"
  shows "MetricsWithStats (fst (readCloudwatchConfig cfgs tagsFilter))
     = concat (map exact_requests (filter exact_mode cfgs))
   \<and> map_of (ResourceTypeFilters (fst (readCloudwatchConfig cfgs tagsFilter))) rt
     = (if rt \<noteq> [] \<and> (\<exists>c \<in> set cfgs. exact_mode c \<and> ResourceType c = rt)
        then Some tagsFilter else None)
   \<and> map_of (snd (readCloudwatchConfig cfgs tagsFilter)) ns
     = (case map (namespace_detail tagsFilter)
               (filter (\<lambda>c. \<not> exact_mode c \<and> Config.Namespace c = ns) cfgs) of
          [] \<Rightarrow> None
        | details \<Rightarrow> Some details)"
proof -
  have 1: "filter exact_branch cfgs = filter exact_mode cfgs"
    using assms by (intro filter_cong) (simp_all add: plain_entry_exact)
  have 2: "filter (\<lambda>c. \<not> exact_branch c \<and> Config.Namespace c = ns) cfgs
      = filter (\<lambda>c. \<not> exact_mode c \<and> Config.Namespace c = ns) cfgs"
    using assms by (intro filter_cong) (simp_all add: plain_entry_exact)
  have 3: "(\<exists>c \<in> set cfgs. exact_branch c \<and> ResourceType c = rt)
      \<longleftrightarrow> (\<exists>c \<in> set cfgs. exact_mode c \<and> ResourceType c = rt)"
    using assms by (auto simp: plain_entry_exact)
  from readCloudwatchConfig_branches [of cfgs tagsFilter rt ns] show ?thesis
    unfolding 1 2 3 .
qed

lemma readCloudwatchConfig_plain_example:
  "MetricsWithStats (fst (readCloudwatchConfig [ec2_exact, ec2_wildcard] []))
     = [\<lparr>CloudwatchMetric =
           \<lparr>Metric.Namespace = ''AWS/EC2'', Metric.MetricName = ''CPUUtilization'',
            Metric.Dimensions = [\<lparr>Name = ''InstanceId'', Value = ''i-123''\<rparr>]\<rparr>,
         MetricsWithStatistics.Statistic =
           [''Average'', ''Maximum'', ''Minimum'', ''Sum'', ''SampleCount'']\<rparr>]
   \<and> map_of (ResourceTypeFilters (fst (readCloudwatchConfig [ec2_exact, ec2_wildcard] [])))
       ''ec2:instance'' = Some []
   \<and> map_of (snd (readCloudwatchConfig [ec2_exact, ec2_wildcard] [])) ''AWS/EC2''
     = Some [\<lparr>ResourceTypeFilter = ''ec2:instance'', Names = Some [''CPUUtilization''],
              Tags = [],
              Statistics = [''Average'', ''Maximum'', ''Minimum'', ''Sum'', ''SampleCount''],
              NamespaceDetail.Dimensions = Some [\<lparr>Name = ''InstanceId'', Value = ''*''\<rparr>]\<rparr>]"
proof -
  have p: "\<forall>c \<in> set [ec2_exact, ec2_wildcard]. plain_entry c"
    by (simp add: plain_entry_def ec2_exact_def ec2_wildcard_def)
  have e: "exact_mode ec2_exact" "\<not> exact_mode ec2_wildcard"
    by (simp_all add: exact_mode_def ec2_exact_def ec2_wildcard_def elems_simps
          dimensionValueWildcard_def)
  from readCloudwatchConfig_plain [OF p, of "[]" "''ec2:instance''" "''AWS/EC2''"] e
  show ?thesis
    by (simp add: exact_requests_def namespace_detail_def statistics_of_def ec2_exact_def
          ec2_wildcard_def elems_simps defaultStatistics_def)
qed

text \<open>
  C5 fails on the code for an entry whose list of metric names, or of dimensions, is empty
  and not nil, which the tests \<^verbatim>\<open>config.MetricName != nil\<close> and
  \<^verbatim>\<open>config.Dimensions != nil\<close> take as given. Such an entry is not in exact mode, and
  the code still takes the exact branch: with no metric name it adds no request and no
  \<^verbatim>\<open>NamespaceDetail\<close> (the entry is lost, its resource type is still recorded); with no
  dimension it adds a request without dimensions and no \<^verbatim>\<open>NamespaceDetail\<close>.
\<close>

theorem readCloudwatchConfig_empty_lists:
  "\<not> exact_mode no_names
   \<and> MetricsWithStats (fst (readCloudwatchConfig [no_names] [])) = []
   \<and> ResourceTypeFilters (fst (readCloudwatchConfig [no_names] [])) = [(''ec2:instance'', [])]
   \<and> snd (readCloudwatchConfig [no_names] []) = []
   \<and> \<not> exact_mode no_dimensions
   \<and> MetricsWithStats (fst (readCloudwatchConfig [no_dimensions] []))
     = [\<lparr>CloudwatchMetric =
           \<lparr>Metric.Namespace = ''AWS/EC2'', Metric.MetricName = ''CPUUtilization'',
            Metric.Dimensions = []\<rparr>,
         MetricsWithStatistics.Statistic =
           [''Average'', ''Maximum'', ''Minimum'', ''Sum'', ''SampleCount'']\<rparr>]
   \<and> snd (readCloudwatchConfig [no_dimensions] []) = []"
  by (simp add: readCloudwatchConfig_def readCloudwatchConfig_entry_def no_names_def
        no_dimensions_def ec2_exact_def exact_mode_def elems_simps append_slice_def
        defaultStatistics_def dimensionValueWildcard_def Let_def)

subsection \<open>Default statistics\<close>

lemma nil_statistics_default:
  "Config.Statistic c = None \<Longrightarrow>
   readCloudwatchConfig_entry tagsFilter c state
     = readCloudwatchConfig_entry tagsFilter (c\<lparr>Config.Statistic := Some defaultStatistics\<rparr>) state"
  by (simp add: readCloudwatchConfig_entry_def)

lemma nil_statistics_queries:
  "map (Stat \<circ> MetricStat) (queries_of_metric periodInSec i listMetric j stats) = stats"
  by (induction stats arbitrary: j) simp_all

text \<open>
  C7 fails on the code for a statistics list that is empty and not nil, which the test
  \<^verbatim>\<open>config.Statistic == nil\<close> leaves as it is: the entry keeps no statistic and
  contributes no query, where the same entry with a nil list gets the five defaults
  and contributes five queries.
\<close>

theorem readCloudwatchConfig_empty_statistics:
  "map MetricsWithStatistics.Statistic
     (MetricsWithStats (fst (readCloudwatchConfig [ec2_exact\<lparr>Config.Statistic := Some []\<rparr>] [])))
     = [[]]
   \<and> CreateMetricDataQueries
       (MetricsWithStats (fst (readCloudwatchConfig [ec2_exact\<lparr>Config.Statistic := Some []\<rparr>] [])))
       60 = []
   \<and> map MetricsWithStatistics.Statistic
       (MetricsWithStats (fst (readCloudwatchConfig [ec2_exact] [])))
     = [[''Average'', ''Maximum'', ''Minimum'', ''Sum'', ''SampleCount'']]
   \<and> map (Stat \<circ> MetricStat)
       (CreateMetricDataQueries (MetricsWithStats (fst (readCloudwatchConfig [ec2_exact] []))) 60)
     = [''Average'', ''Maximum'', ''Minimum'', ''Sum'', ''SampleCount'']"
  by (simp add: readCloudwatchConfig_def readCloudwatchConfig_entry_eq exact_branch_def
        exact_requests_def statistics_of_def ec2_exact_def elems_simps
        dimensionValueWildcard_def CreateMetricDataQueries_def defaultStatistics_def)

subsection \<open>Root fields of an event\<close>

lemma InsertRootFields_loop_in_range:
  "length dimNames \<le> length dimValues \<Longrightarrow>
   InsertRootFields_loop dimNames dimValues i event
     = Inr (with_dimension_fields (drop i (zip dimNames dimValues)) event)"
proof (induction dimNames dimValues i event rule: InsertRootFields_loop.induct)
  case (1 dimNames dimValues i event)
  show ?case
  proof (cases "i < length dimNames")
    case False
    then show ?thesis
      by (subst InsertRootFields_loop.simps) (simp add: with_dimension_fields_def)
  next
    case True
    with "1.prems" have iv: "i < length dimValues" by simp
    then have ix: "index dimValues i = Inr (dimValues ! i)" by (simp add: index_def)
    from True iv have "i < length (zip dimNames dimValues)" by simp
    then have d: "drop i (zip dimNames dimValues)
        = (dimNames ! i, dimValues ! i) # drop (Suc i) (zip dimNames dimValues)"
      by (simp add: Cons_nth_drop_Suc [symmetric])
    have "InsertRootFields_loop dimNames dimValues i event
        = InsertRootFields_loop dimNames dimValues (Suc i)
            (put_field (''aws.dimensions.'' @ dimNames ! i) (Text (dimValues ! i)) event)"
      using True ix by (subst InsertRootFields_loop.simps) simp
    also have "\<dots> = Inr (with_dimension_fields (drop (Suc i) (zip dimNames dimValues))
        (put_field (''aws.dimensions.'' @ dimNames ! i) (Text (dimValues ! i)) event))"
      using "1.IH" [OF True ix] "1.prems" by simp
    finally show ?thesis by (simp add: d with_dimension_fields_def)
  qed
qed

lemma InsertRootFields_loop_out_of_range:
  "length dimValues < length dimNames \<Longrightarrow> i \<le> length dimValues \<Longrightarrow>
   InsertRootFields_loop dimNames dimValues i event = Inl IndexOutOfRange"
proof (induction dimNames dimValues i event rule: InsertRootFields_loop.induct)
  case (1 dimNames dimValues i event)
  from "1.prems" have lt: "i < length dimNames" by simp
  show ?case
  proof (cases "i < length dimValues")
    case False
    with lt show ?thesis by (subst InsertRootFields_loop.simps) (simp add: index_def)
  next
    case True
    then have ix: "index dimValues i = Inr (dimValues ! i)" by (simp add: index_def)
    from "1.IH" [OF lt ix "1.prems"(1)] True lt ix show ?thesis
      by (subst InsertRootFields_loop.simps) simp
  qed
qed

lemma InsertRootFields_five:
  assumes "length labels = 5"
  shows "InsertRootFields event v labels
     = InsertRootFields_loop (Split (labels ! 3) dimensionSeparator)
         (Split (labels ! 4) dimensionSeparator) 0 (with_metric_fields event v labels)"
  using assms
  by (simp add: InsertRootFields_def GenerateFieldName_def index_def namespaceIdx_def
        statisticIdx_def metricNameIdx_def identifierNameIdx_def identifierValueIdx_def
        with_metric_fields_def Let_def)

lemma count_Join:
  "xs \<noteq> [] \<Longrightarrow>
   count_list (Join xs [c]) c = length xs - 1 + sum_list (map (\<lambda>x. count_list x c) xs)"
  by (induction xs "[c]" rule: Join.induct) auto

lemma count_Join_free:
  assumes "names \<noteq> []" "\<forall>n \<in> set names. c \<notin> set n"
  shows "count_list (Join names [c]) c = length names - 1"
proof -
  have "map (\<lambda>x. count_list x c) names = map (\<lambda>x. 0) names"
    using assms(2) by simp
  then have "sum_list (map (\<lambda>x. count_list x c) names) = sum_list (map (\<lambda>x. 0) names)"
    by (rule arg_cong)
  then show ?thesis by (simp only: count_Join [OF assms(1)]) simp
qed

lemma parts_of_joined:
  assumes "length names = length vals" "names \<noteq> []" "\<forall>n \<in> set names. comma_free n"
  shows "length (Split (Join names dimensionSeparator) dimensionSeparator) = length names"
    and "length names \<le> length (Split (Join vals dimensionSeparator) dimensionSeparator)"
proof -
  from assms(3) have "\<forall>n \<in> set names. CHR '','' \<notin> set n" by (simp add: comma_free_def)
  from count_Join_free [OF assms(2) this] assms(2)
  show "length (Split (Join names dimensionSeparator) dimensionSeparator) = length names"
    by (cases names) (simp_all add: dimensionSeparator_def length_Split)
  from assms(1,2) have "vals \<noteq> []" by auto
  with assms(1) show "length names \<le> length (Split (Join vals dimensionSeparator) dimensionSeparator)"
    by (simp add: dimensionSeparator_def length_Split count_Join)
qed

lemma five_fields_pipe_free:
  assumes "length (Split (a @ CHR ''|'' # b @ CHR ''|'' # c @ CHR ''|'' # d @ CHR ''|'' # e) ''|'') = 5"
  shows "Split (a @ CHR ''|'' # b @ CHR ''|'' # c @ CHR ''|'' # d @ CHR ''|'' # e) ''|''
     = [a, b, c, d, e]"
proof -
  from assms have "count_list a CHR ''|'' + count_list b CHR ''|'' + count_list c CHR ''|''
      + count_list d CHR ''|'' + count_list e CHR ''|'' = 0"
    by (simp add: length_Split)
  then have "pipe_free a" "pipe_free b" "pipe_free c" "pipe_free d" "pipe_free e"
    by (simp_all add: pipe_free_def count_list_0_iff)
  then show ?thesis by (rule Split5)
qed

lemma ConstructLabel_five_fields:
  assumes "Join (map Name (Metric.Dimensions m)) dimensionSeparator \<noteq> []"
    and "Join (map Dimension.Value (Metric.Dimensions m)) dimensionSeparator \<noteq> []"
    and "length (Split (ConstructLabel m st) labelSeparator) = 5"
  shows "Split (ConstructLabel m st) labelSeparator
     = [Metric.MetricName m, Metric.Namespace m, st,
        Join (map Name (Metric.Dimensions m)) dimensionSeparator,
        Join (map Dimension.Value (Metric.Dimensions m)) dimensionSeparator]"
  using assms
  by (simp add: ConstructLabel_eq Let_def labelSeparator_def five_fields_pipe_free)

text \<open>
  C10, as amended. For every label of five fields whose dimension-names field splits on
  commas into no more parts than its dimension-values field, \<^verbatim>\<open>InsertRootFields\<close> reads
  the split values only in range and returns the event with its two metric fields and one
  \<open>aws.dimensions.<name>\<close> field per name part; when the names field splits into more
  parts than the values field, the read is out of range. The precondition holds for every
  five-field label that \<^verbatim>\<open>ConstructLabel\<close> produces from dimensions whose names contain no
  comma, provided that the label carries the dimension fields (the comma-joined names and
  the comma-joined values are both non-empty).
\<close>

theorem InsertRootFields_dimensions:
  "(length labels = 5 \<longrightarrow>
      (length (Split (labels ! 3) dimensionSeparator)
         \<le> length (Split (labels ! 4) dimensionSeparator) \<longrightarrow>
       InsertRootFields event v labels =
         Inr (with_dimension_fields
                (zip (Split (labels ! 3) dimensionSeparator)
                     (Split (labels ! 4) dimensionSeparator))
                (with_metric_fields event v labels)))
      \<and> (length (Split (labels ! 4) dimensionSeparator)
           < length (Split (labels ! 3) dimensionSeparator) \<longrightarrow>
         InsertRootFields event v labels = Inl IndexOutOfRange))
   \<and> (Join (map Name (Metric.Dimensions m)) dimensionSeparator \<noteq> []
      \<and> Join (map Dimension.Value (Metric.Dimensions m)) dimensionSeparator \<noteq> []
      \<and> (\<forall>d \<in> set (Metric.Dimensions m). comma_free (Name d))
      \<and> length (Split (ConstructLabel m st) labelSeparator) = 5 \<longrightarrow>
        length (Split (Split (ConstructLabel m st) labelSeparator ! 3) dimensionSeparator)
          \<le> length (Split (Split (ConstructLabel m st) labelSeparator ! 4) dimensionSeparator))"
proof (intro conjI impI)
  assume "length labels = 5"
    and "length (Split (labels ! 3) dimensionSeparator)
           \<le> length (Split (labels ! 4) dimensionSeparator)"
  then show "InsertRootFields event v labels =
         Inr (with_dimension_fields
                (zip (Split (labels ! 3) dimensionSeparator)
                     (Split (labels ! 4) dimensionSeparator))
                (with_metric_fields event v labels))"
    by (simp add: InsertRootFields_five InsertRootFields_loop_in_range)
next
  assume "length labels = 5"
    and "length (Split (labels ! 4) dimensionSeparator)
           < length (Split (labels ! 3) dimensionSeparator)"
  then show "InsertRootFields event v labels = Inl IndexOutOfRange"
    by (simp add: InsertRootFields_five InsertRootFields_loop_out_of_range)
next
  assume a: "Join (map Name (Metric.Dimensions m)) dimensionSeparator \<noteq> []
      \<and> Join (map Dimension.Value (Metric.Dimensions m)) dimensionSeparator \<noteq> []
      \<and> (\<forall>d \<in> set (Metric.Dimensions m). comma_free (Name d))
      \<and> length (Split (ConstructLabel m st) labelSeparator) = 5"
  then have ne: "map Name (Metric.Dimensions m) \<noteq> []" by auto
  from a have cf: "\<forall>n \<in> set (map Name (Metric.Dimensions m)). comma_free n" by simp
  have len: "length (map Name (Metric.Dimensions m))
      = length (map Dimension.Value (Metric.Dimensions m))" by simp
  from a have l: "Split (ConstructLabel m st) labelSeparator
     = [Metric.MetricName m, Metric.Namespace m, st,
        Join (map Name (Metric.Dimensions m)) dimensionSeparator,
        Join (map Dimension.Value (Metric.Dimensions m)) dimensionSeparator]"
    by (intro ConstructLabel_five_fields) simp_all
  from parts_of_joined [OF len ne cf]
  show "length (Split (Split (ConstructLabel m st) labelSeparator ! 3) dimensionSeparator)
          \<le> length (Split (Split (ConstructLabel m st) labelSeparator ! 4) dimensionSeparator)"
    by (simp add: l)
qed

theorem InsertRootFields_dimensions_witness:
  "InsertRootFields empty_event 7 [''m'', ''ns'', ''avg'', ''a,b'', ''x,y,z'']
     = Inr \<lparr>Timestamp = 1,
            RootFields = [(''aws.ns.metrics.m.avg'', Number 7),
                          (''aws.cloudwatch.namespace'', Text ''ns''),
                          (''aws.dimensions.a'', Text ''x''),
                          (''aws.dimensions.b'', Text ''y'')]\<rparr>
   \<and> InsertRootFields empty_event 7 [''m'', ''ns'', ''avg'', ''a,b'', ''x'']
     = Inl IndexOutOfRange
   \<and> length (Split (Split (ConstructLabel cpu_metric ''avg'') labelSeparator ! 3)
        dimensionSeparator)
     \<le> length (Split (Split (ConstructLabel cpu_metric ''avg'') labelSeparator ! 4)
        dimensionSeparator)"
proof -
  have a: "length (Split ([''m'', ''ns'', ''avg'', ''a,b'', ''x,y,z''] ! 3) dimensionSeparator)
      \<le> length (Split ([''m'', ''ns'', ''avg'', ''a,b'', ''x,y,z''] ! 4) dimensionSeparator)"
    by (simp add: dimensionSeparator_def)
  have b: "length (Split ([''m'', ''ns'', ''avg'', ''a,b'', ''x''] ! 4) dimensionSeparator)
      < length (Split ([''m'', ''ns'', ''avg'', ''a,b'', ''x''] ! 3) dimensionSeparator)"
    by (simp add: dimensionSeparator_def)
  have c: "Join (map Name (Metric.Dimensions cpu_metric)) dimensionSeparator \<noteq> []
      \<and> Join (map Dimension.Value (Metric.Dimensions cpu_metric)) dimensionSeparator \<noteq> []
      \<and> (\<forall>d \<in> set (Metric.Dimensions cpu_metric). comma_free (Name d))
      \<and> length (Split (ConstructLabel cpu_metric ''avg'') labelSeparator) = 5"
    by (simp add: cpu_metric_def comma_free_def ConstructLabel_def labelSeparator_def
          dimensionSeparator_def)
  from InsertRootFields_dimensions
         [of "[''m'', ''ns'', ''avg'', ''a,b'', ''x,y,z'']" empty_event 7 cpu_metric "''avg''"] a c
  have 1: "InsertRootFields empty_event 7 [''m'', ''ns'', ''avg'', ''a,b'', ''x,y,z'']
     = Inr (with_dimension_fields [(''a'', ''x''), (''b'', ''y'')]
         (with_metric_fields empty_event 7 [''m'', ''ns'', ''avg'', ''a,b'', ''x,y,z'']))"
    and 3: "length (Split (Split (ConstructLabel cpu_metric ''avg'') labelSeparator ! 3)
        dimensionSeparator)
     \<le> length (Split (Split (ConstructLabel cpu_metric ''avg'') labelSeparator ! 4)
        dimensionSeparator)"
    by (simp_all add: dimensionSeparator_def)
  from InsertRootFields_dimensions
         [of "[''m'', ''ns'', ''avg'', ''a,b'', ''x'']" empty_event 7] b
  have 2: "InsertRootFields empty_event 7 [''m'', ''ns'', ''avg'', ''a,b'', ''x'']
     = Inl IndexOutOfRange" by simp
  have "with_dimension_fields [(''a'', ''x''), (''b'', ''y'')]
         (with_metric_fields empty_event (7::nat) [''m'', ''ns'', ''avg'', ''a,b'', ''x,y,z''])
     = \<lparr>Timestamp = 1,
        RootFields = [(''aws.ns.metrics.m.avg'', Number 7),
                      (''aws.cloudwatch.namespace'', Text ''ns''),
                      (''aws.dimensions.a'', Text ''x''),
                      (''aws.dimensions.b'', Text ''y'')]\<rparr>"
    by (simp add: with_dimension_fields_def with_metric_fields_def put_field_def Put_def
          empty_event_def StripNamespace_def ToLower_def lower_byte_def DeDot_def
          StatisticLookup_def statisticLookupTable_def HasPrefix_def)
  with 1 2 3 show ?thesis by simp
qed

text \<open>
  C10 as stated fails where the label does not carry the dimension fields and pipes in
  the statistic make five fields of it: no dimension name contains a comma, and the read
  is out of range.
\<close>

theorem InsertRootFields_dimensions_counterexample:
  "length (Split (ConstructLabel plain_metric ''p|a,b|c'') labelSeparator) = 5
   \<and> length (Split (Split (ConstructLabel plain_metric ''p|a,b|c'') labelSeparator ! 4)
        dimensionSeparator)
     < length (Split (Split (ConstructLabel plain_metric ''p|a,b|c'') labelSeparator ! 3)
        dimensionSeparator)
   \<and> InsertRootFields empty_event 7
        (Split (ConstructLabel plain_metric ''p|a,b|c'') labelSeparator) = Inl IndexOutOfRange
   \<and> length (Split (ConstructLabel blank_value_metric ''p|a,b|c'') labelSeparator) = 5
   \<and> length (Split (Split (ConstructLabel blank_value_metric ''p|a,b|c'') labelSeparator ! 4)
        dimensionSeparator)
     < length (Split (Split (ConstructLabel blank_value_metric ''p|a,b|c'') labelSeparator ! 3)
        dimensionSeparator)
   \<and> InsertRootFields empty_event 7
        (Split (ConstructLabel blank_value_metric ''p|a,b|c'') labelSeparator)
       = Inl IndexOutOfRange"
proof -
  have l1: "Split (ConstructLabel plain_metric ''p|a,b|c'') labelSeparator
      = [''m'', ''AWS/EC2'', ''p'', ''a,b'', ''c'']"
    by (simp add: ConstructLabel_def plain_metric_def labelSeparator_def)
  have l2: "Split (ConstructLabel blank_value_metric ''p|a,b|c'') labelSeparator
      = [''m'', ''AWS/EC2'', ''p'', ''a,b'', ''c'']"
    by (simp add: ConstructLabel_def blank_value_metric_def labelSeparator_def
          dimensionSeparator_def)
  have p: "InsertRootFields empty_event 7 [''m'', ''AWS/EC2'', ''p'', ''a,b'', ''c'']
      = Inl IndexOutOfRange"
    by (simp add: InsertRootFields_five InsertRootFields_loop_out_of_range
          dimensionSeparator_def)
  show ?thesis by (simp add: l1 l2 p) (simp add: dimensionSeparator_def)
qed

subsection \<open>Tags of an event\<close>

lemma InsertTags_tags_present:
  "map_of events identifier = Some event \<Longrightarrow>
   InsertTags_tags tags identifier events
     = Inr (AList.update identifier (with_tag_fields tags event) events)"
proof (induction tags arbitrary: events event)
  case Nil
  then show ?case by (simp add: with_tag_fields_def update_triv)
next
  case (Cons tag tags)
  let ?event = "put_field (''aws.tags.'' @ DeDot (Key tag)) (Text (Tag.Value tag)) event"
  have "map_of (AList.update identifier ?event events) identifier = Some ?event"
    by (simp add: update_conv')
  from Cons.IH [OF this] Cons.prems show ?case
    by (simp add: with_tag_fields_def tag_field_name_def)
qed

lemma elems_found_tags:
  "elems (let tags = tags_of resourceTagMap v
          in if length (elems tags) = 0 \<and> HasPrefix v ''arn:''
             then (case f v of Some resourceID \<Rightarrow> tags_of resourceTagMap resourceID
                   | None \<Rightarrow> tags)
             else tags)
   = found_tags f resourceTagMap v"
  by (auto simp: found_tags_def Let_def split: option.splits)

lemma with_tag_fields_append:
  "with_tag_fields (a @ b) event = with_tag_fields b (with_tag_fields a event)"
  by (simp add: with_tag_fields_def)

lemma InsertTags_subs_present:
  "map_of events identifier = Some event \<Longrightarrow>
   InsertTags_subs f subs identifier resourceTagMap events
     = Inr (AList.update identifier
              (with_tag_fields (concat (map (found_tags f resourceTagMap) subs)) event) events)"
proof (induction subs arbitrary: events event)
  case Nil
  then show ?case by (simp add: with_tag_fields_def update_triv)
next
  case (Cons v subs)
  let ?found = "found_tags f resourceTagMap v"
  show ?case
  proof (cases "?found = []")
    case True
    with Cons.IH [OF Cons.prems] show ?thesis
      using elems_found_tags [of resourceTagMap v f]
      by (simp add: Let_def)
  next
    case False
    let ?event = "with_tag_fields ?found event"
    have m: "map_of (AList.update identifier ?event events) identifier = Some ?event"
      by (simp add: update_conv')
    from Cons.IH [OF m] False InsertTags_tags_present [OF Cons.prems, of ?found] show ?thesis
      using elems_found_tags [of resourceTagMap v f]
      by (simp add: Let_def with_tag_fields_append)
  qed
qed

lemma RootFields_with_tag_fields:
  "map_of (RootFields (with_tag_fields tags event))
     = map_of (RootFields event) ++ map_of (rev (map tag_field tags))"
proof (induction tags arbitrary: event)
  case Nil
  show ?case by (simp add: with_tag_fields_def)
next
  case (Cons tag tags)
  have "with_tag_fields (tag # tags) event
      = with_tag_fields tags (put_field (tag_field_name tag) (Text (Tag.Value tag)) event)"
    by (simp add: with_tag_fields_def)
  then show ?case
    by (simp add: Cons.IH put_field_def Put_def update_conv' map_add_def fun_eq_iff
          tag_field_def split: option.splits)
qed

lemma every_tag_attached:
  assumes "distinct (map tag_field_name tags)" "tag \<in> set tags"
  shows "map_of (RootFields (with_tag_fields tags event)) (tag_field_name tag)
     = Some (Text (Tag.Value tag))"
proof -
  let ?fields = "rev (map tag_field tags) :: (string \<times> 'a field_value) list"
  have "map fst ?fields = rev (map tag_field_name tags)"
    by (simp add: rev_map tag_field_def comp_def)
  with assms(1) have "distinct (map fst ?fields)" by simp
  moreover from assms(2) have "(tag_field_name tag, Text (Tag.Value tag)) \<in> set ?fields"
    by (auto simp: tag_field_def)
  ultimately have "map_of ?fields (tag_field_name tag) = Some (Text (Tag.Value tag))"
    by (rule map_of_is_SomeI)
  then show ?thesis by (simp add: RootFields_with_tag_fields)
qed

text \<open>
  C9, as amended. For every identity that has an event, \<^verbatim>\<open>InsertTags\<close> writes, in order,
  every tag found for a comma-separated sub-identifier (looked up directly, or through the
  short identifier when a sub-identifier that starts with \<open>arn:\<close> has no tags of its own)
  as the field \<open>aws.tags.<dedotted key>\<close> with the value unmodified, and no error occurs.
  The last write to a field wins: the fields of the event afterwards are the old fields
  overridden by the tag fields, a later tag overriding an earlier one of the same field
  name; when the tags found have distinct field names, every one of them is on the event.
  If no sub-identifier yields tags the events are unchanged.
\<close>

theorem InsertTags_attaches:
  assumes "map_of events identifier = Some event"
  shows "InsertTags f events identifier resourceTagMap
     = Inr (AList.update identifier
              (with_tag_fields (all_found_tags f resourceTagMap identifier) event) events)
   \<and> map_of (RootFields (with_tag_fields (all_found_tags f resourceTagMap identifier) event))
     = map_of (RootFields event)
       ++ map_of (rev (map tag_field (all_found_tags f resourceTagMap identifier)))
   \<and> (distinct (map tag_field_name (all_found_tags f resourceTagMap identifier)) \<longrightarrow>
       (\<forall>tag \<in> set (all_found_tags f resourceTagMap identifier).
          map_of (RootFields (with_tag_fields (all_found_tags f resourceTagMap identifier) event))
            (''aws.tags.'' @ DeDot (Key tag)) = Some (Text (Tag.Value tag))))
   \<and> (all_found_tags f resourceTagMap identifier = [] \<longrightarrow>
       InsertTags f events identifier resourceTagMap = Inr events)"
proof -
  have 1: "InsertTags f events identifier resourceTagMap
     = Inr (AList.update identifier
              (with_tag_fields (all_found_tags f resourceTagMap identifier) event) events)"
    using InsertTags_subs_present [OF assms] by (simp add: InsertTags_def all_found_tags_def)
  have 3: "map_of (RootFields (with_tag_fields (all_found_tags f resourceTagMap identifier) event))
            (''aws.tags.'' @ DeDot (Key tag)) = Some (Text (Tag.Value tag))"
    if "distinct (map tag_field_name (all_found_tags f resourceTagMap identifier))"
      "tag \<in> set (all_found_tags f resourceTagMap identifier)" for tag
    using every_tag_attached [OF that, of event] by (simp add: tag_field_name_def)
  have 4: "InsertTags f events identifier resourceTagMap = Inr events"
    if "all_found_tags f resourceTagMap identifier = []"
    using 1 that assms by (simp add: with_tag_fields_def update_triv)
  from 1 3 4 show ?thesis by (simp add: RootFields_with_tag_fields)
qed

theorem InsertTags_attaches_witness:
  "InsertTags short_id [(''StandardStorage,arn:aws:s3:::bucket'', empty_event)]
       ''StandardStorage,arn:aws:s3:::bucket'' prod_tags
     = Inr [(''StandardStorage,arn:aws:s3:::bucket'',
             \<lparr>Timestamp = 1,
              RootFields = [(''aws.tags.env'', Text ''prod''), (''aws.tags.a_b'', Text ''x.y'')]\<rparr>)]
   \<and> InsertTags short_id [(''i-2'', empty_event)] ''i-2'' prod_tags = Inr [(''i-2'', empty_event)]"
proof -
  have t1: "all_found_tags short_id prod_tags ''StandardStorage,arn:aws:s3:::bucket''
      = [\<lparr>Key = ''env'', Value = ''prod''\<rparr>, \<lparr>Key = ''a.b'', Value = ''x.y''\<rparr>]"
    by (simp add: all_found_tags_def found_tags_def tags_of_def prod_tags_def short_id_def
          dimensionSeparator_def HasPrefix_def elems_simps)
  have t2: "all_found_tags short_id prod_tags ''i-2'' = []"
    by (simp add: all_found_tags_def found_tags_def tags_of_def prod_tags_def short_id_def
          dimensionSeparator_def HasPrefix_def elems_simps)
  have m1: "map_of [(''StandardStorage,arn:aws:s3:::bucket'', empty_event)]
      ''StandardStorage,arn:aws:s3:::bucket'' = Some empty_event" by simp
  have m2: "map_of [(''i-2'', empty_event)] ''i-2'' = Some empty_event" by simp
  from InsertTags_attaches [OF m1, of short_id prod_tags]
  have 1: "InsertTags short_id [(''StandardStorage,arn:aws:s3:::bucket'', empty_event)]
       ''StandardStorage,arn:aws:s3:::bucket'' prod_tags
     = Inr [(''StandardStorage,arn:aws:s3:::bucket'',
             \<lparr>Timestamp = 1,
              RootFields = [(''aws.tags.env'', Text ''prod''), (''aws.tags.a_b'', Text ''x.y'')]\<rparr>)]"
    by (simp add: t1 with_tag_fields_def tag_field_name_def put_field_def Put_def DeDot_def
          empty_event_def)
  from InsertTags_attaches [OF m2, of short_id prod_tags] t2
  have 2: "InsertTags short_id [(''i-2'', empty_event)] ''i-2'' prod_tags
      = Inr [(''i-2'', empty_event)]" by (simp add: with_tag_fields_def)
  from 1 2 show ?thesis by simp
qed

text \<open>
  C9 as stated fails: a tag found for a later sub-identifier overwrites the field of a tag
  of the same key found for an earlier one (the tag \<open>env = dev\<close> of \<open>i-1\<close> is found and is
  not on the event), and a tag field that the event already has is overwritten.
\<close>

theorem InsertTags_attaches_counterexample:
  "\<lparr>Key = ''env'', Value = ''dev''\<rparr> \<in> set (all_found_tags short_id prod_tags ''i-1,bucket'')
   \<and> InsertTags short_id [(''i-1,bucket'', empty_event)] ''i-1,bucket'' prod_tags
     = Inr [(''i-1,bucket'',
             \<lparr>Timestamp = 1,
              RootFields = [(''aws.tags.env'', Text ''prod''), (''aws.tags.a_b'', Text ''x.y'')]\<rparr>)]
   \<and> InsertTags short_id
       [(''i-1'', \<lparr>Timestamp = 1, RootFields = [(''aws.tags.env'', Text ''old'')]\<rparr>)]
       ''i-1'' prod_tags
     = Inr [(''i-1'', \<lparr>Timestamp = 1, RootFields = [(''aws.tags.env'', Text ''dev'')]\<rparr>)]"
  by (simp add: InsertTags_def all_found_tags_def found_tags_def tags_of_def prod_tags_def
        short_id_def dimensionSeparator_def HasPrefix_def elems_simps tag_field_name_def
        put_field_def Put_def DeDot_def empty_event_def)

subsection \<open>Events of a region and of an invocation\<close>



















end
